theory Spec2Isabelle
  imports Main "HOL-Library.Sublist" "HOL-Library.Multiset"
begin

section \<open>Post-deployment validation (Validate\_post\_deployment.py)\<close>

subsection \<open>Data model\<close>

text \<open>
  One entry of the \<^verbatim>\<open>IpPermissions\<close> / \<^verbatim>\<open>IpPermissionsEgress\<close> lists reported by the
  cloud API. The code reads \<^verbatim>\<open>IpProtocol\<close>, \<^verbatim>\<open>FromPort\<close> and \<^verbatim>\<open>ToPort\<close> with
  \<^verbatim>\<open>dict.get\<close>, so an absent key reads as \<^verbatim>\<open>None\<close>; \<^verbatim>\<open>IpRanges\<close> is read with the
  default \<^verbatim>\<open>[]\<close> and only the \<^verbatim>\<open>CidrIp\<close> of each entry is used, so it is the list of those
  strings (an absent key is the empty list).
\<close>

record ip_permission =
  IpProtocol :: "string option"
  FromPort :: "int option"
  ToPort :: "int option"
  IpRanges :: "string list"

text \<open>
  The \<^verbatim>\<open>sg_details\<close> dictionary. \<^verbatim>\<open>Tags\<close> is the list of (Key, Value) pairs in the
  order reported; the three lists are read with the default \<^verbatim>\<open>[]\<close>.
\<close>

record sg_details =
  VpcId :: "string option"
  GroupName :: "string option"
  Description :: "string option"
  IpPermissions :: "ip_permission list"
  IpPermissionsEgress :: "ip_permission list"
  Tags :: "(string \<times> string) list"

text \<open>An expected rule of the configuration: a dictionary in which every key may be absent.\<close>

record expected_rule =
  protocol :: "string option"
  from_port :: "int option"
  to_port :: "int option"
  cidr_blocks :: "string list option"
  description :: "string option"

text \<open>
  The expected configuration. \<^verbatim>\<open>cfg_description\<close> is the key \<^verbatim>\<open>description\<close>;
  \<^verbatim>\<open>ingress_rules\<close>, \<^verbatim>\<open>egress_rules\<close> and \<^verbatim>\<open>tags\<close> are read with the defaults
  \<^verbatim>\<open>[]\<close>, \<^verbatim>\<open>[]\<close> and \<^verbatim>\<open>{}\<close>; \<^verbatim>\<open>tags\<close> is the dictionary's items in iteration order.
\<close>

record expected_config =
  vpc_id :: "string option"
  security_group_name :: "string option"
  cfg_description :: "string option"
  ingress_rules :: "expected_rule list"
  egress_rules :: "expected_rule list"
  tags :: "(string \<times> string) list"

text \<open>
  The entries appended to \<^verbatim>\<open>validation_results\<close>. Each constructor is one f-string of the
  source and carries the values that the f-string interpolates.
\<close>

datatype msg =
    VpcIdMatches "string option"
  | VpcMismatch string "string option"
  | NameMatches string
  | NameMismatch string string
  | DescriptionMatches
  | DescriptionDiffers string "string option"
  | IngressRuleFound nat string int int
  | IngressRuleNotFound nat expected_rule
  | AdditionalIngressRules nat
  | EgressRuleFound nat
  | EgressRuleNotFound nat expected_rule
  | TagMatches string
  | TagDiffers string string string
  | TagMissing string
  | OpenToInternet string int
  | AllProtocolsFromInternet
  | BestPracticesValidated
  | OutputsFileNotFound string
  | OutputIdMatches
  | OutputIdMismatch
  | OutputNameMatches
  | OutputNameMismatch
  | OutputArnValid
  | ErrorReadingOutputs string

record validation_results =
  passed :: "msg list"
  failed :: "msg list"
  warnings :: "msg list"

datatype py_error = KeyError string | TypeError string | OtherError string

definition init_results :: validation_results where
  "init_results = \<lparr>passed = [], failed = [], warnings = []\<rparr>"

definition add_passed :: "msg \<Rightarrow> validation_results \<Rightarrow> validation_results" where
  "add_passed m st = st\<lparr>passed := passed st @ [m]\<rparr>"

definition add_failed :: "msg \<Rightarrow> validation_results \<Rightarrow> validation_results" where
  "add_failed m st = st\<lparr>failed := failed st @ [m]\<rparr>"

definition add_warning :: "msg \<Rightarrow> validation_results \<Rightarrow> validation_results" where
  "add_warning m st = st\<lparr>warnings := warnings st @ [m]\<rparr>"

subsection \<open>Basic properties\<close>

text \<open>
  \<^verbatim>\<open>expected_name in actual_name or actual_name in expected_name\<close> is substring
  containment; it raises \<^verbatim>\<open>TypeError\<close> when the group has no \<^verbatim>\<open>GroupName\<close>.
\<close>

definition validate_basic_properties ::
  "sg_details \<Rightarrow> expected_config \<Rightarrow> validation_results \<Rightarrow> py_error + (bool \<times> validation_results)" where
  "validate_basic_properties sg cfg st =
     (let st1 = (case vpc_id cfg of
                   None \<Rightarrow> st
                 | Some expected_vpc \<Rightarrow>
                     if Some expected_vpc = VpcId sg then add_passed (VpcIdMatches (VpcId sg)) st
                     else add_failed (VpcMismatch expected_vpc (VpcId sg)) st)
      in case (case security_group_name cfg of
                 None \<Rightarrow> Inr st1
               | Some expected_name \<Rightarrow>
                   (case GroupName sg of
                      None \<Rightarrow> Inl (TypeError ''argument of type NoneType is not iterable'')
                    | Some actual_name \<Rightarrow>
                        if sublist expected_name actual_name \<or> sublist actual_name expected_name
                        then Inr (add_passed (NameMatches actual_name) st1)
                        else Inr (add_failed (NameMismatch expected_name actual_name) st1))) of
           Inl e \<Rightarrow> Inl e
         | Inr st2 \<Rightarrow>
             (let st3 = (case cfg_description cfg of
                           None \<Rightarrow> st2
                         | Some expected_desc \<Rightarrow>
                             if Some expected_desc = Description sg then add_passed DescriptionMatches st2
                             else add_warning (DescriptionDiffers expected_desc (Description sg)) st2)
              in Inr (failed st3 = [], st3)))"

subsection \<open>Rule matching\<close>

text \<open>
  \<^verbatim>\<open>_find_matching_ingress_rule\<close>: the first observed rule with the same protocol and ports
  and, if the expected rule has \<^verbatim>\<open>cidr_blocks\<close>, the same set of CIDRs, makes the search
  return \<^verbatim>\<open>True\<close>; a rule that agrees on protocol and ports but not on the CIDRs is passed
  over.
\<close>

fun find_matching_ingress_rule :: "expected_rule \<Rightarrow> ip_permission list \<Rightarrow> bool" where
  "find_matching_ingress_rule expected [] = False"
| "find_matching_ingress_rule expected (rule # actual_rules) =
     (if IpProtocol rule \<noteq> protocol expected then find_matching_ingress_rule expected actual_rules
      else if FromPort rule \<noteq> from_port expected then find_matching_ingress_rule expected actual_rules
      else if ToPort rule \<noteq> to_port expected then find_matching_ingress_rule expected actual_rules
      else (case cidr_blocks expected of
              Some expected_cidrs \<Rightarrow>
                if set (IpRanges rule) = set expected_cidrs then True
                else find_matching_ingress_rule expected actual_rules
            | None \<Rightarrow> True))"

text \<open>\<^verbatim>\<open>_find_matching_egress_rule\<close> has the same body.\<close>

fun find_matching_egress_rule :: "expected_rule \<Rightarrow> ip_permission list \<Rightarrow> bool" where
  "find_matching_egress_rule expected [] = False"
| "find_matching_egress_rule expected (rule # actual_rules) =
     (if IpProtocol rule \<noteq> protocol expected then find_matching_egress_rule expected actual_rules
      else if FromPort rule \<noteq> from_port expected then find_matching_egress_rule expected actual_rules
      else if ToPort rule \<noteq> to_port expected then find_matching_egress_rule expected actual_rules
      else (case cidr_blocks expected of
              Some expected_cidrs \<Rightarrow>
                if set (IpRanges rule) = set expected_cidrs then True
                else find_matching_egress_rule expected actual_rules
            | None \<Rightarrow> True))"

text \<open>
  The loop of \<^verbatim>\<open>validate_ingress_rules\<close> over \<^verbatim>\<open>enumerate(expected_rules)\<close>; \<open>idx\<close> is
  the index of the head. The message of a found rule reads \<^verbatim>\<open>expected_rule['protocol']\<close>,
  \<^verbatim>\<open>['from_port']\<close> and \<^verbatim>\<open>['to_port']\<close>, each of which raises \<^verbatim>\<open>KeyError\<close> when absent.
\<close>

fun ingress_loop ::
  "ip_permission list \<Rightarrow> nat \<Rightarrow> expected_rule list \<Rightarrow> validation_results \<Rightarrow> py_error + validation_results" where
  "ingress_loop actual_rules idx [] st = Inr st"
| "ingress_loop actual_rules idx (expected_rule # rest) st =
     (if find_matching_ingress_rule expected_rule actual_rules then
        (case protocol expected_rule of
           None \<Rightarrow> Inl (KeyError ''protocol'')
         | Some p \<Rightarrow>
            (case from_port expected_rule of
               None \<Rightarrow> Inl (KeyError ''from_port'')
             | Some f \<Rightarrow>
                (case to_port expected_rule of
                   None \<Rightarrow> Inl (KeyError ''to_port'')
                 | Some t \<Rightarrow>
                     ingress_loop actual_rules (idx + 1) rest
                       (add_passed (IngressRuleFound (idx + 1) p f t) st))))
      else ingress_loop actual_rules (idx + 1) rest
             (add_failed (IngressRuleNotFound (idx + 1) expected_rule) st))"

definition validate_ingress_rules ::
  "sg_details \<Rightarrow> expected_rule list \<Rightarrow> validation_results \<Rightarrow> py_error + (bool \<times> validation_results)" where
  "validate_ingress_rules sg expected_rules st =
     (let actual_rules = IpPermissions sg in
      case ingress_loop actual_rules 0 expected_rules st of
        Inl e \<Rightarrow> Inl e
      | Inr st1 \<Rightarrow>
          (let st2 = (if length actual_rules > length expected_rules
                      then add_warning
                             (AdditionalIngressRules (length actual_rules - length expected_rules)) st1
                      else st1)
           in Inr (failed st2 = [], st2)))"

fun egress_loop ::
  "ip_permission list \<Rightarrow> nat \<Rightarrow> expected_rule list \<Rightarrow> validation_results \<Rightarrow> validation_results" where
  "egress_loop actual_rules idx [] st = st"
| "egress_loop actual_rules idx (expected_rule # rest) st =
     (if find_matching_egress_rule expected_rule actual_rules
      then egress_loop actual_rules (idx + 1) rest (add_passed (EgressRuleFound (idx + 1)) st)
      else egress_loop actual_rules (idx + 1) rest
             (add_failed (EgressRuleNotFound (idx + 1) expected_rule) st))"

definition validate_egress_rules ::
  "sg_details \<Rightarrow> expected_rule list \<Rightarrow> validation_results \<Rightarrow> bool \<times> validation_results" where
  "validate_egress_rules sg expected_rules st =
     (let st1 = egress_loop (IpPermissionsEgress sg) 0 expected_rules st
      in (failed st1 = [], st1))"

subsection \<open>Tags\<close>

text \<open>
  \<^verbatim>\<open>{tag['Key']: tag['Value'] for tag in Tags}\<close>: a later entry for a key replaces an
  earlier one, so the dictionary is the lookup in the reversed list.
\<close>

definition actual_tags_of :: "(string \<times> string) list \<Rightarrow> (string \<rightharpoonup> string)" where
  "actual_tags_of tgs = map_of (rev tgs)"

text \<open>
  The loop over \<^verbatim>\<open>expected_tags.items()\<close>. \<^verbatim>\<open>actual_tags.get(key)\<close> is \<^verbatim>\<open>None\<close> for an
  absent key, which is neither equal to the expected string nor truthy; for a present value
  \<^verbatim>\<open>elif actual_value:\<close> is Python truthiness, false on the empty string.
\<close>

fun tags_loop ::
  "(string \<rightharpoonup> string) \<Rightarrow> (string \<times> string) list \<Rightarrow> validation_results \<Rightarrow> validation_results" where
  "tags_loop actual_tags [] st = st"
| "tags_loop actual_tags ((key, expected_value) # rest) st =
     (case actual_tags key of
        None \<Rightarrow> tags_loop actual_tags rest (add_failed (TagMissing key) st)
      | Some actual_value \<Rightarrow>
          if actual_value = expected_value
          then tags_loop actual_tags rest (add_passed (TagMatches key) st)
          else if actual_value \<noteq> []
          then tags_loop actual_tags rest
                 (add_warning (TagDiffers key expected_value actual_value) st)
          else tags_loop actual_tags rest (add_failed (TagMissing key) st))"

definition validate_tags ::
  "sg_details \<Rightarrow> (string \<times> string) list \<Rightarrow> validation_results \<Rightarrow> bool \<times> validation_results" where
  "validate_tags sg expected_tags st =
     (let st1 = tags_loop (actual_tags_of (Tags sg)) expected_tags st
      in (failed st1 = [], st1))"

subsection \<open>Security best practices\<close>

text \<open>The dictionary \<^verbatim>\<open>sensitive_ports\<close>, in its iteration (insertion) order.\<close>

definition sensitive_ports :: "(int \<times> string) list" where
  "sensitive_ports =
     [(22, ''SSH''), (3389, ''RDP''), (3306, ''MySQL''), (5432, ''PostgreSQL''),
      (27017, ''MongoDB''), (6379, ''Redis''), (1433, ''MSSQL'')]"

text \<open>
  The innermost loop over \<^verbatim>\<open>IpRanges\<close>: every entry equal to \<^verbatim>\<open>0.0.0.0/0\<close> appends the
  warning and clears the local flag \<^verbatim>\<open>passed\<close>, which is the first component.
\<close>

fun ip_ranges_loop ::
  "msg \<Rightarrow> string list \<Rightarrow> bool \<times> validation_results \<Rightarrow> bool \<times> validation_results" where
  "ip_ranges_loop m [] acc = acc"
| "ip_ranges_loop m (cidr # rest) (ok, st) =
     (if cidr = ''0.0.0.0/0'' then ip_ranges_loop m rest (False, add_warning m st)
      else ip_ranges_loop m rest (ok, st))"

fun ports_loop ::
  "int \<Rightarrow> int \<Rightarrow> string list \<Rightarrow> (int \<times> string) list \<Rightarrow> bool \<times> validation_results
     \<Rightarrow> bool \<times> validation_results" where
  "ports_loop f t ranges [] acc = acc"
| "ports_loop f t ranges ((port, service) # rest) acc =
     (if f \<le> port \<and> port \<le> t
      then ports_loop f t ranges rest (ip_ranges_loop (OpenToInternet service port) ranges acc)
      else ports_loop f t ranges rest acc)"

text \<open>
  \<^verbatim>\<open>if from_port and to_port:\<close> is truthiness: both present and both different from 0.
\<close>

fun sensitive_loop ::
  "ip_permission list \<Rightarrow> bool \<times> validation_results \<Rightarrow> bool \<times> validation_results" where
  "sensitive_loop [] acc = acc"
| "sensitive_loop (rule # rest) acc =
     (case FromPort rule of
        None \<Rightarrow> sensitive_loop rest acc
      | Some f \<Rightarrow>
         (case ToPort rule of
            None \<Rightarrow> sensitive_loop rest acc
          | Some t \<Rightarrow>
              if f \<noteq> 0 \<and> t \<noteq> 0
              then sensitive_loop rest (ports_loop f t (IpRanges rule) sensitive_ports acc)
              else sensitive_loop rest acc))"

fun all_protocol_loop ::
  "ip_permission list \<Rightarrow> bool \<times> validation_results \<Rightarrow> bool \<times> validation_results" where
  "all_protocol_loop [] acc = acc"
| "all_protocol_loop (rule # rest) acc =
     (if IpProtocol rule = Some ''-1''
      then all_protocol_loop rest (ip_ranges_loop AllProtocolsFromInternet (IpRanges rule) acc)
      else all_protocol_loop rest acc)"

text \<open>The method ends with \<^verbatim>\<open>return True\<close> whatever the flag \<^verbatim>\<open>passed\<close> is.\<close>

definition validate_security_best_practices ::
  "sg_details \<Rightarrow> validation_results \<Rightarrow> bool \<times> validation_results" where
  "validate_security_best_practices sg st =
     (let ingress = IpPermissions sg;
          (ok, st1) = all_protocol_loop ingress (sensitive_loop ingress (True, st));
          st2 = (if ok then add_passed BestPracticesValidated st1 else st1)
      in (True, st2))"

text \<open>
  The warnings that the two loops append for one rule, written as list expressions; the
  lemmas below show that the loops compute them.
\<close>

definition ip_ranges_warnings :: "msg \<Rightarrow> string list \<Rightarrow> msg list" where
  "ip_ranges_warnings m ranges = map (\<lambda>c. m) (filter (\<lambda>c. c = ''0.0.0.0/0'') ranges)"

definition ports_warnings :: "int \<Rightarrow> int \<Rightarrow> string list \<Rightarrow> (int \<times> string) list \<Rightarrow> msg list" where
  "ports_warnings f t ranges ports =
     concat (map (\<lambda>(port, service).
                    if f \<le> port \<and> port \<le> t
                    then ip_ranges_warnings (OpenToInternet service port) ranges else []) ports)"

definition rule_sensitive_warnings :: "ip_permission \<Rightarrow> msg list" where
  "rule_sensitive_warnings rule =
     (case FromPort rule of
        None \<Rightarrow> []
      | Some f \<Rightarrow>
         (case ToPort rule of
            None \<Rightarrow> []
          | Some t \<Rightarrow>
              if f \<noteq> 0 \<and> t \<noteq> 0 then ports_warnings f t (IpRanges rule) sensitive_ports else []))"

definition rule_all_protocol_warnings :: "ip_permission \<Rightarrow> msg list" where
  "rule_all_protocol_warnings rule =
     (if IpProtocol rule = Some ''-1''
      then ip_ranges_warnings AllProtocolsFromInternet (IpRanges rule) else [])"

subsection \<open>Terraform outputs\<close>

text \<open>
  The outputs file as the method meets it. \<^verbatim>\<open>outputs.get(k, {}).get('value')\<close> gives
  \<^verbatim>\<open>Value v\<close> (\<^verbatim>\<open>None\<close> when the key or its \<^verbatim>\<open>value\<close> is absent), or raises inside the
  \<^verbatim>\<open>try\<close> when the entry is not a dictionary (\<^verbatim>\<open>Malformed\<close>, with the exception text).
  \<^verbatim>\<open>OutputsUnreadable\<close> is an exception raised by \<^verbatim>\<open>open\<close> or \<^verbatim>\<open>json.load\<close>.
\<close>

datatype output_entry = Malformed string | Value "string option"

record outputs_json =
  out_security_group_id :: output_entry
  out_security_group_name :: output_entry
  out_security_group_arn :: output_entry

datatype outputs_file = NoOutputsFile | OutputsUnreadable string | OutputsLoaded outputs_json

definition validate_terraform_outputs ::
  "outputs_file \<Rightarrow> string \<Rightarrow> sg_details \<Rightarrow> validation_results \<Rightarrow> bool \<times> validation_results" where
  "validate_terraform_outputs file sg_id sg st =
     (case file of
        NoOutputsFile \<Rightarrow> (True, add_warning (OutputsFileNotFound ''outputs.json'') st)
      | OutputsUnreadable e \<Rightarrow>
          (let st1 = add_warning (ErrorReadingOutputs e) st in (failed st1 = [], st1))
      | OutputsLoaded outputs \<Rightarrow>
          (let st3 =
             (case out_security_group_id outputs of
                Malformed e \<Rightarrow> add_warning (ErrorReadingOutputs e) st
              | Value output_id \<Rightarrow>
                 (let st1 = (if output_id = Some sg_id then add_passed OutputIdMatches st
                             else add_failed OutputIdMismatch st)
                  in case out_security_group_name outputs of
                       Malformed e \<Rightarrow> add_warning (ErrorReadingOutputs e) st1
                     | Value output_name \<Rightarrow>
                        (let st2 = (if output_name = GroupName sg then add_passed OutputNameMatches st1
                                    else add_failed OutputNameMismatch st1)
                         in case out_security_group_arn outputs of
                              Malformed e \<Rightarrow> add_warning (ErrorReadingOutputs e) st2
                            | Value None \<Rightarrow> st2
                            | Value (Some output_arn) \<Rightarrow>
                                if output_arn \<noteq> [] \<and> sublist sg_id output_arn
                                then add_passed OutputArnValid st2 else st2)))
           in (failed st3 = [], st3)))"

subsection \<open>The whole run\<close>

text \<open>
  \<^verbatim>\<open>fetch_security_group\<close> returns \<^verbatim>\<open>False\<close> on a \<^verbatim>\<open>ClientError\<close>; any other
  exception of the call is not caught.
\<close>

datatype fetch_result = Fetched sg_details | ClientError string | FetchRaised string

text \<open>
  \<^verbatim>\<open>run_all_validations\<close> runs the six steps in order on the validator's
  \<^verbatim>\<open>validation_results\<close> and returns \<^verbatim>\<open>all(results)\<close>; an exception of a step is not
  caught.
\<close>

definition run_all_validations ::
  "fetch_result \<Rightarrow> outputs_file \<Rightarrow> string \<Rightarrow> expected_config \<Rightarrow> validation_results
     \<Rightarrow> py_error + (bool \<times> validation_results)" where
  "run_all_validations fetch file sg_id cfg st =
     (case fetch of
        ClientError e \<Rightarrow> Inr (False, st)
      | FetchRaised e \<Rightarrow> Inl (OtherError e)
      | Fetched sg \<Rightarrow>
         (case validate_basic_properties sg cfg st of
            Inl e \<Rightarrow> Inl e
          | Inr (r1, st1) \<Rightarrow>
             (case validate_ingress_rules sg (ingress_rules cfg) st1 of
                Inl e \<Rightarrow> Inl e
              | Inr (r2, st2) \<Rightarrow>
                 (let (r3, st3) = validate_egress_rules sg (egress_rules cfg) st2;
                      (r4, st4) = validate_tags sg (tags cfg) st3;
                      (r5, st5) = validate_security_best_practices sg st4;
                      (r6, st6) = validate_terraform_outputs file sg_id sg st5
                  in Inr (r1 \<and> r2 \<and> r3 \<and> r4 \<and> r5 \<and> r6, st6)))))"

text \<open>
  \<^verbatim>\<open>main\<close>: a fresh validator, then \<^verbatim>\<open>sys.exit(0 if success else 1)\<close>; an uncaught
  exception ends the interpreter with status 1.
\<close>

definition post_deployment_exit_code ::
  "fetch_result \<Rightarrow> outputs_file \<Rightarrow> string \<Rightarrow> expected_config \<Rightarrow> int" where
  "post_deployment_exit_code fetch file sg_id cfg =
     (case run_all_validations fetch file sg_id cfg init_results of
        Inl e \<Rightarrow> 1
      | Inr (success, st) \<Rightarrow> if success then 0 else 1)"

section \<open>Static validation of the rule configuration (Validate\_terraform.py)\<close>

text \<open>
  The entries that \<^verbatim>\<open>SecurityGroupConfigValidator\<close> appends to \<^verbatim>\<open>self.errors\<close> and
  \<^verbatim>\<open>self.warnings\<close>, one constructor for each f-string.
\<close>

datatype cfg_msg =
    MissingFields nat "string list"
  | PortRangeInvalid nat int int
  | UnusualProtocol nat string
  | PortOpenToInternet nat int
  | NoDescription nat
  | EgressMissingFields nat "string list"
  | NoEgressRules

record config_validator =
  errors :: "cfg_msg list"
  cfg_warnings :: "cfg_msg list"

definition init_config_validator :: config_validator where
  "init_config_validator = \<lparr>errors = [], cfg_warnings = []\<rparr>"

definition add_error :: "cfg_msg \<Rightarrow> config_validator \<Rightarrow> config_validator" where
  "add_error m v = v\<lparr>errors := errors v @ [m]\<rparr>"

definition add_cfg_warning :: "cfg_msg \<Rightarrow> config_validator \<Rightarrow> config_validator" where
  "add_cfg_warning m v = v\<lparr>cfg_warnings := cfg_warnings v @ [m]\<rparr>"

text \<open>\<^verbatim>\<open>[f for f in required_fields if f not in rule]\<close>.\<close>

definition missing_fields :: "expected_rule \<Rightarrow> string list" where
  "missing_fields rule =
     (if from_port rule = None then [''from_port''] else []) @
     (if to_port rule = None then [''to_port''] else []) @
     (if protocol rule = None then [''protocol''] else []) @
     (if cidr_blocks rule = None then [''cidr_blocks''] else [])"

definition valid_protocols :: "string list" where
  "valid_protocols = [''tcp'', ''udp'', ''icmp'', ''-1'']"

definition cfg_sensitive_ports :: "int list" where
  "cfg_sensitive_ports = [22, 3389, 3306, 5432, 27017]"

fun cfg_ports_loop :: "nat \<Rightarrow> int \<Rightarrow> int \<Rightarrow> int list \<Rightarrow> config_validator \<Rightarrow> config_validator" where
  "cfg_ports_loop rule_num f t [] v = v"
| "cfg_ports_loop rule_num f t (port # rest) v =
     (if f \<le> port \<and> port \<le> t
      then cfg_ports_loop rule_num f t rest (add_cfg_warning (PortOpenToInternet rule_num port) v)
      else cfg_ports_loop rule_num f t rest v)"

text \<open>
  The checks made on a rule that has the four required fields: port range, protocol,
  sensitive ports open to \<^verbatim>\<open>0.0.0.0/0\<close>, description (\<^verbatim>\<open>not rule.get('description')\<close> holds
  for an absent and for an empty description).
\<close>

definition check_complete_rule ::
  "nat \<Rightarrow> int \<Rightarrow> int \<Rightarrow> string \<Rightarrow> string list \<Rightarrow> string option \<Rightarrow> config_validator \<Rightarrow> config_validator" where
  "check_complete_rule rule_num f t p cidrs desc v =
     (let v1 = (if f > t then add_error (PortRangeInvalid rule_num f t) v else v);
          v2 = (if p \<notin> set valid_protocols then add_cfg_warning (UnusualProtocol rule_num p) v1 else v1);
          v3 = (if ''0.0.0.0/0'' \<in> set cidrs then cfg_ports_loop rule_num f t cfg_sensitive_ports v2
                else v2)
      in if desc = None \<or> desc = Some [] then add_cfg_warning (NoDescription rule_num) v3 else v3)"

text \<open>
  The loop of \<^verbatim>\<open>validate_ingress_rules\<close> over \<^verbatim>\<open>enumerate(rules)\<close>, with
  \<^verbatim>\<open>rule_num = idx + 1\<close>. A rule with a missing field gets one error and the loop
  continues with the next rule.
\<close>

fun cfg_ingress_loop :: "nat \<Rightarrow> expected_rule list \<Rightarrow> config_validator \<Rightarrow> config_validator" where
  "cfg_ingress_loop idx [] v = v"
| "cfg_ingress_loop idx (rule # rest) v =
     (if missing_fields rule \<noteq> []
      then cfg_ingress_loop (idx + 1) rest (add_error (MissingFields (idx + 1) (missing_fields rule)) v)
      else (case (from_port rule, to_port rule, protocol rule, cidr_blocks rule) of
              (Some f, Some t, Some p, Some cidrs) \<Rightarrow>
                 cfg_ingress_loop (idx + 1) rest
                   (check_complete_rule (idx + 1) f t p cidrs (description rule) v)
            | _ \<Rightarrow> cfg_ingress_loop (idx + 1) rest v))"

text \<open>
  \<^verbatim>\<open>SecurityGroupConfigValidator.validate_ingress_rules\<close>: an empty rule list returns
  \<^verbatim>\<open>True\<close> at once.
\<close>

definition cfg_validate_ingress_rules ::
  "expected_rule list \<Rightarrow> config_validator \<Rightarrow> bool \<times> config_validator" where
  "cfg_validate_ingress_rules rules v =
     (if rules = [] then (True, v)
      else (let v1 = cfg_ingress_loop 0 rules v in (errors v1 = [], v1)))"

text \<open>
  The errors and the warnings that the loop appends for rule number \<open>n\<close>, written as list
  expressions; the lemmas below show that the loop computes them.
\<close>

definition rule_errors :: "nat \<Rightarrow> expected_rule \<Rightarrow> cfg_msg list" where
  "rule_errors n rule =
     (if missing_fields rule \<noteq> [] then [MissingFields n (missing_fields rule)]
      else (case (from_port rule, to_port rule) of
              (Some f, Some t) \<Rightarrow> if f > t then [PortRangeInvalid n f t] else []
            | _ \<Rightarrow> []))"

definition rule_cfg_warnings :: "nat \<Rightarrow> expected_rule \<Rightarrow> cfg_msg list" where
  "rule_cfg_warnings n rule =
     (case (from_port rule, to_port rule, protocol rule, cidr_blocks rule) of
        (Some f, Some t, Some p, Some cidrs) \<Rightarrow>
          (if p \<notin> set valid_protocols then [UnusualProtocol n p] else []) @
          (if ''0.0.0.0/0'' \<in> set cidrs
           then map (PortOpenToInternet n) (filter (\<lambda>port. f \<le> port \<and> port \<le> t) cfg_sensitive_ports)
           else []) @
          (if description rule = None \<or> description rule = Some [] then [NoDescription n] else [])
      | _ \<Rightarrow> [])"

section \<open>The phase orchestrator (Run\_all\_tests.py)\<close>

subsection \<open>Data model\<close>

text \<open>The four keys of \<^verbatim>\<open>TestRunner.results\<close>, in the dictionary's order.\<close>

datatype phase = PreDeployment | TerraformTest | IntegrationTest | PostDeployment

datatype status = Pending | Passed | Failed | Skipped

text \<open>The strings appended to a phase's \<^verbatim>\<open>details\<close>, one constructor for each.\<close>

datatype detail =
    AllValidationsPassed
  | ValidationFailed
  | AllTerraformTestsPassed
  | TerraformTestsFailed
  | TestsFailed int
  | AllIntegrationTestsPassed
  | PostValidationPassed
  | PostValidationFailed

record phase_result =
  status :: status
  details :: "detail list"

text \<open>
  The run configuration, each option after \<^verbatim>\<open>config.get\<close> has applied its default and
  Python truthiness. \<^verbatim>\<open>cleanup_enabled\<close> is the option \<^verbatim>\<open>cleanup\<close>.
\<close>

record config =
  run_pre_deployment :: bool
  run_terraform_tests :: bool
  run_integration_tests :: bool
  run_post_deployment :: bool
  cleanup_enabled :: bool
  fail_fast :: bool
  terraform_dir :: string
  aws_region :: string

text \<open>
  What the outside world answers to the runner's calls. \<^verbatim>\<open>run_command\<close> catches every
  exception and a timeout and returns code 1 for them, so each command is its return code.
  \<^verbatim>\<open>listdir_tests\<close> is \<^verbatim>\<open>os.listdir('tests')\<close>; \<^verbatim>\<open>output_parse\<close> is \<^verbatim>\<open>json.loads\<close> of
  the output of \<^verbatim>\<open>terraform output\<close> followed by the lookup of the group id;
  \<^verbatim>\<open>write_outputs\<close> is the writing of \<^verbatim>\<open>outputs.json\<close>; \<^verbatim>\<open>pytest_run\<close> is the direct
  \<^verbatim>\<open>subprocess.run\<close> of pytest. For these, \<^verbatim>\<open>Inl\<close> or \<^verbatim>\<open>Some\<close> carries the text of the
  exception raised. \<^verbatim>\<open>report_failed\<close> is the number of failed tests read from
  \<^verbatim>\<open>test-report.json\<close>, \<^verbatim>\<open>None\<close> when anything in that \<^verbatim>\<open>try\<close> block raises.
\<close>

record env =
  pre_validation_rc :: int
  listdir_tests :: "string + string list"
  terraform_test_rc :: int
  init_rc :: int
  plan_rc :: int
  apply_rc :: int
  output_rc :: int
  output_parse :: "string + string option"
  write_outputs :: "string option"
  pytest_run :: "string option"
  report_failed :: "int option"
  post_validation_rc :: int
  destroy_rc :: int

text \<open>
  What a run does that can be observed: the banner a phase prints on entry, the external
  commands started, the message of the exception handler, the fail-fast message, the
  banner of the cleanup and the final summary with the phases it lists as failed.
\<close>

datatype event =
    Banner phase
  | Command "string list"
  | ExceptionIn phase string
  | FailFastStop phase
  | CleanupBanner
  | FinalSummary "phase list"

record runner =
  results :: "phase \<Rightarrow> phase_result"
  security_group_id :: "string option"
  trace :: "event list"

definition init_runner :: runner where
  "init_runner =
     \<lparr>results = (\<lambda>p. \<lparr>status = Pending, details = []\<rparr>), security_group_id = None, trace = []\<rparr>"

definition emit :: "event \<Rightarrow> runner \<Rightarrow> runner" where
  "emit e r = r\<lparr>trace := trace r @ [e]\<rparr>"

definition set_status :: "phase \<Rightarrow> status \<Rightarrow> runner \<Rightarrow> runner" where
  "set_status p s r = r\<lparr>results := (results r)(p := (results r p)\<lparr>status := s\<rparr>)\<rparr>"

definition add_detail :: "phase \<Rightarrow> detail \<Rightarrow> runner \<Rightarrow> runner" where
  "add_detail p d r =
     r\<lparr>results := (results r)(p := (results r p)\<lparr>details := details (results r p) @ [d]\<rparr>)\<rparr>"

definition destroy_command :: "string list" where
  "destroy_command = [''terraform'', ''destroy'', ''-auto-approve'']"

subsection \<open>The phases\<close>

text \<open>
  Each phase returns what the call \<^verbatim>\<open>phase_func()\<close> gives the orchestrator, its boolean
  result or the text of the exception it raised, together with the runner as the phase left
  it.
\<close>

definition phase_1_pre_deployment_validation ::
  "config \<Rightarrow> env \<Rightarrow> runner \<Rightarrow> (string + bool) \<times> runner" where
  "phase_1_pre_deployment_validation cfg ev r0 =
     (let r = emit (Banner PreDeployment) r0 in
      if \<not> run_pre_deployment cfg then (Inr True, set_status PreDeployment Skipped r)
      else
        (let r1 = emit (Command [''python3'', ''tests/validate_terraform.py'', ''--dir'',
                                 terraform_dir cfg]) r
         in if pre_validation_rc ev = 0
            then (Inr True, add_detail PreDeployment AllValidationsPassed
                              (set_status PreDeployment Passed r1))
            else (Inr False, add_detail PreDeployment ValidationFailed
                               (set_status PreDeployment Failed r1))))"

definition phase_2_terraform_native_tests ::
  "config \<Rightarrow> env \<Rightarrow> runner \<Rightarrow> (string + bool) \<times> runner" where
  "phase_2_terraform_native_tests cfg ev r0 =
     (let r = emit (Banner TerraformTest) r0 in
      if \<not> run_terraform_tests cfg then (Inr True, set_status TerraformTest Skipped r)
      else
        (case listdir_tests ev of
           Inl e \<Rightarrow> (Inl e, r)
         | Inr files \<Rightarrow>
            (let test_files = filter (\<lambda>f. suffix ''.tftest.hcl'' f) files in
             if test_files = [] then (Inr True, set_status TerraformTest Skipped r)
             else
               (let r1 = emit (Command [''terraform'', ''test'']) r
                in if terraform_test_rc ev = 0
                   then (Inr True, add_detail TerraformTest AllTerraformTestsPassed
                                     (set_status TerraformTest Passed r1))
                   else (Inr False, add_detail TerraformTest TerraformTestsFailed
                                      (set_status TerraformTest Failed r1))))))"

text \<open>
  Phase 3 runs init, plan and apply, each ending the phase as failed (with no detail) on a
  non-zero code; reads the outputs, where parsing and writing can raise; runs pytest; and
  fails only if the report could be read and counts at least one failed test.
\<close>

definition pytest_command :: "string list" where
  "pytest_command =
     [''python3'', ''-m'', ''pytest'', ''tests/test_security_group_integration.py'', ''-v'',
      ''--tb=short'', ''--json-report'', ''--json-report-file=test-report.json'']"

text \<open>Step 3.5 of phase 3, reached from both branches of step 3.4.\<close>

definition phase_3_run_tests :: "env \<Rightarrow> runner \<Rightarrow> (string + bool) \<times> runner" where
  "phase_3_run_tests ev r =
     (let r1 = emit (Command pytest_command) r in
      case pytest_run ev of
        Some e \<Rightarrow> (Inl e, r1)
      | None \<Rightarrow>
         (case report_failed ev of
            Some n \<Rightarrow>
              if n > 0
              then (Inr False, add_detail IntegrationTest (TestsFailed n)
                                 (set_status IntegrationTest Failed r1))
              else (Inr True, add_detail IntegrationTest AllIntegrationTestsPassed
                                (set_status IntegrationTest Passed r1))
          | None \<Rightarrow> (Inr True, add_detail IntegrationTest AllIntegrationTestsPassed
                                 (set_status IntegrationTest Passed r1))))"

definition phase_3_deploy_and_integration_test ::
  "config \<Rightarrow> env \<Rightarrow> runner \<Rightarrow> (string + bool) \<times> runner" where
  "phase_3_deploy_and_integration_test cfg ev r0 =
     (let r = emit (Banner IntegrationTest) r0 in
      if \<not> run_integration_tests cfg then (Inr True, set_status IntegrationTest Skipped r)
      else
        (let r1 = emit (Command [''terraform'', ''init'']) r in
         if init_rc ev \<noteq> 0 then (Inr False, set_status IntegrationTest Failed r1)
         else
           (let r2 = emit (Command [''terraform'', ''plan'', ''-out=tfplan'']) r1 in
            if plan_rc ev \<noteq> 0 then (Inr False, set_status IntegrationTest Failed r2)
            else
              (let r3 = emit (Command [''terraform'', ''apply'', ''-auto-approve'', ''tfplan'']) r2 in
               if apply_rc ev \<noteq> 0 then (Inr False, set_status IntegrationTest Failed r3)
               else
                 (let r4 = emit (Command [''terraform'', ''output'', ''-json'']) r3 in
                  if output_rc ev = 0
                  then (case output_parse ev of
                          Inl e \<Rightarrow> (Inl e, r4)
                        | Inr sgid \<Rightarrow>
                            (let r5 = r4\<lparr>security_group_id := sgid\<rparr> in
                             case write_outputs ev of
                               Some e \<Rightarrow> (Inl e, r5)
                             | None \<Rightarrow> phase_3_run_tests ev r5))
                  else phase_3_run_tests ev r4)))))"

text \<open>
  \<^verbatim>\<open>if not self.security_group_id\<close> holds for \<^verbatim>\<open>None\<close> and for the empty string.
\<close>

definition phase_4_post_deployment_validation ::
  "config \<Rightarrow> env \<Rightarrow> runner \<Rightarrow> (string + bool) \<times> runner" where
  "phase_4_post_deployment_validation cfg ev r0 =
     (let r = emit (Banner PostDeployment) r0 in
      if \<not> run_post_deployment cfg then (Inr True, set_status PostDeployment Skipped r)
      else
        (case security_group_id r of
           None \<Rightarrow> (Inr True, set_status PostDeployment Skipped r)
         | Some sgid \<Rightarrow>
            if sgid = [] then (Inr True, set_status PostDeployment Skipped r)
            else
              (let r1 = emit (Command [''python3'', ''tests/validate_post_deployment.py'',
                                       ''--sg-id'', sgid, ''--region'', aws_region cfg]) r
               in if post_validation_rc ev = 0
                  then (Inr True, add_detail PostDeployment PostValidationPassed
                                    (set_status PostDeployment Passed r1))
                  else (Inr False, add_detail PostDeployment PostValidationFailed
                                     (set_status PostDeployment Failed r1)))))"

text \<open>
  \<^verbatim>\<open>cleanup\<close>: the teardown is the command \<^verbatim>\<open>terraform destroy -auto-approve\<close>; the
  method tests the configuration again and returns whether the command succeeded.
\<close>

definition cleanup :: "config \<Rightarrow> env \<Rightarrow> runner \<Rightarrow> bool \<times> runner" where
  "cleanup cfg ev r0 =
     (let r = emit CleanupBanner r0 in
      if \<not> cleanup_enabled cfg then (True, r)
      else (let r1 = emit (Command destroy_command) r in (destroy_rc ev = 0, r1)))"

subsection \<open>The orchestration\<close>

definition all_phases :: "phase list" where
  "all_phases = [PreDeployment, TerraformTest, IntegrationTest, PostDeployment]"

fun phase_func :: "phase \<Rightarrow> config \<Rightarrow> env \<Rightarrow> runner \<Rightarrow> (string + bool) \<times> runner" where
  "phase_func PreDeployment = phase_1_pre_deployment_validation"
| "phase_func TerraformTest = phase_2_terraform_native_tests"
| "phase_func IntegrationTest = phase_3_deploy_and_integration_test"
| "phase_func PostDeployment = phase_4_post_deployment_validation"

text \<open>
  The \<^verbatim>\<open>for\<close> loop of \<^verbatim>\<open>run_all_phases\<close> with its \<^verbatim>\<open>try\<close>/\<^verbatim>\<open>except\<close>; the boolean is
  \<^verbatim>\<open>all_passed\<close>. The handler prints the exception and clears \<^verbatim>\<open>all_passed\<close>; it writes
  nothing to \<^verbatim>\<open>self.results\<close>. A \<^verbatim>\<open>break\<close> ends the loop.
\<close>

fun run_phases :: "config \<Rightarrow> env \<Rightarrow> phase list \<Rightarrow> bool \<Rightarrow> runner \<Rightarrow> bool \<times> runner" where
  "run_phases cfg ev [] all_passed r = (all_passed, r)"
| "run_phases cfg ev (p # rest) all_passed r =
     (case phase_func p cfg ev r of
        (Inr result, r1) \<Rightarrow>
          if \<not> result
          then (if fail_fast cfg then (False, emit (FailFastStop p) r1)
                else run_phases cfg ev rest False r1)
          else run_phases cfg ev rest all_passed r1
      | (Inl e, r1) \<Rightarrow>
          (let r2 = emit (ExceptionIn p e) r1 in
           if fail_fast cfg then (False, r2) else run_phases cfg ev rest False r2))"

text \<open>\<^verbatim>\<open>print_final_summary\<close> lists the phases whose status is \<^verbatim>\<open>failed\<close>.\<close>

definition print_final_summary :: "runner \<Rightarrow> runner" where
  "print_final_summary r =
     emit (FinalSummary (filter (\<lambda>p. status (results r p) = Failed) all_phases)) r"

definition run_all_phases :: "config \<Rightarrow> env \<Rightarrow> runner \<Rightarrow> bool \<times> runner" where
  "run_all_phases cfg ev r0 =
     (let (all_passed, r1) = run_phases cfg ev all_phases True r0;
          r2 = (if cleanup_enabled cfg then snd (cleanup cfg ev r1) else r1)
      in (all_passed, print_final_summary r2))"

text \<open>\<^verbatim>\<open>main\<close>: a fresh \<^verbatim>\<open>TestRunner\<close>, then \<^verbatim>\<open>sys.exit(0 if success else 1)\<close>.\<close>

definition main_exit_code :: "config \<Rightarrow> env \<Rightarrow> int" where
  "main_exit_code cfg ev = (if fst (run_all_phases cfg ev init_runner) then 0 else 1)"

text \<open>
  The events that the loop over the phases \<open>ps\<close> can add to the trace: banners and
  handler messages of these phases, and commands other than the teardown.
\<close>

fun loop_event :: "phase list \<Rightarrow> event \<Rightarrow> bool" where
  "loop_event ps (Banner q) = (q \<in> set ps)"
| "loop_event ps (Command c) = (c \<noteq> destroy_command)"
| "loop_event ps (ExceptionIn q e) = (q \<in> set ps)"
| "loop_event ps (FailFastStop q) = (q \<in> set ps)"
| "loop_event ps CleanupBanner = False"
| "loop_event ps (FinalSummary fs) = False"

section \<open>Properties of the post-deployment validation\<close>

subsection \<open>What the loops compute\<close>

lemma find_matching_ingress_rule_iff:
  "find_matching_ingress_rule e rs \<longleftrightarrow>
     (\<exists>r\<in>set rs. IpProtocol r = protocol e \<and> FromPort r = from_port e \<and> ToPort r = to_port e \<and>
        (case cidr_blocks e of None \<Rightarrow> True | Some cs \<Rightarrow> set (IpRanges r) = set cs))"
  by (induction rs) (auto split: option.splits)

lemma find_matching_egress_rule_iff:
  "find_matching_egress_rule e rs \<longleftrightarrow>
     (\<exists>r\<in>set rs. IpProtocol r = protocol e \<and> FromPort r = from_port e \<and> ToPort r = to_port e \<and>
        (case cidr_blocks e of None \<Rightarrow> True | Some cs \<Rightarrow> set (IpRanges r) = set cs))"
  by (induction rs) (auto split: option.splits)

lemma add_simps [simp]:
  "passed (add_passed m st) = passed st @ [m]" "failed (add_passed m st) = failed st"
  "warnings (add_passed m st) = warnings st"
  "passed (add_failed m st) = passed st" "failed (add_failed m st) = failed st @ [m]"
  "warnings (add_failed m st) = warnings st"
  "passed (add_warning m st) = passed st" "failed (add_warning m st) = failed st"
  "warnings (add_warning m st) = warnings st @ [m]"
  by (simp_all add: add_passed_def add_failed_def add_warning_def)

lemma ingress_loop_Inr:
  "ingress_loop rs idx es st = Inr st' \<Longrightarrow>
     passed st' = passed st @
        map (\<lambda>(i, e). IngressRuleFound (i + 1) (the (protocol e)) (the (from_port e)) (the (to_port e)))
          (filter (\<lambda>(i, e). find_matching_ingress_rule e rs) (enumerate idx es)) \<and>
     failed st' = failed st @
        map (\<lambda>(i, e). IngressRuleNotFound (i + 1) e)
          (filter (\<lambda>(i, e). \<not> find_matching_ingress_rule e rs) (enumerate idx es)) \<and>
     warnings st' = warnings st"
  by (induction es arbitrary: idx st) (auto split: if_splits option.splits)

lemma ingress_loop_total:
  "(\<exists>st'. ingress_loop rs idx es st = Inr st') \<longleftrightarrow>
     (\<forall>e\<in>set es. find_matching_ingress_rule e rs \<longrightarrow>
          protocol e \<noteq> None \<and> from_port e \<noteq> None \<and> to_port e \<noteq> None)"
  by (induction es arbitrary: idx st) (auto split: if_splits option.splits)

lemma egress_loop_fields:
  "passed (egress_loop rs idx es st) = passed st @
        map (\<lambda>(i, e). EgressRuleFound (i + 1))
          (filter (\<lambda>(i, e). find_matching_egress_rule e rs) (enumerate idx es))"
  "failed (egress_loop rs idx es st) = failed st @
        map (\<lambda>(i, e). EgressRuleNotFound (i + 1) e)
          (filter (\<lambda>(i, e). \<not> find_matching_egress_rule e rs) (enumerate idx es))"
  "warnings (egress_loop rs idx es st) = warnings st"
  by (induction es arbitrary: idx st) auto

lemma tags_loop_fields:
  "passed (tags_loop at es st) = passed st @
        map (\<lambda>(k, v). TagMatches k) (filter (\<lambda>(k, v). at k = Some v) es)"
  "failed (tags_loop at es st) = failed st @
        map (\<lambda>(k, v). TagMissing k)
          (filter (\<lambda>(k, v). at k = None \<or> (at k = Some [] \<and> v \<noteq> [])) es)"
  "warnings (tags_loop at es st) = warnings st @
        map (\<lambda>(k, v). TagDiffers k v (the (at k)))
          (filter (\<lambda>(k, v). at k \<noteq> None \<and> at k \<noteq> Some v \<and> at k \<noteq> Some []) es)"
  by (induction es arbitrary: st) (auto split: option.splits if_splits)


lemma ip_ranges_loop_eq:
  "ip_ranges_loop m ranges acc =
     (fst acc \<and> ip_ranges_warnings m ranges = [],
      (snd acc)\<lparr>warnings := warnings (snd acc) @ ip_ranges_warnings m ranges\<rparr>)"
proof (induction ranges arbitrary: acc)
  case Nil
  then show ?case by (simp add: ip_ranges_warnings_def)
next
  case (Cons c cs)
  obtain ok st where acc: "acc = (ok, st)" by (cases acc)
  show ?case
    unfolding acc using Cons [of "(False, add_warning m st)"] Cons [of "(ok, st)"]
    by (simp add: ip_ranges_warnings_def add_warning_def)
qed

lemma ports_loop_eq:
  "ports_loop f t ranges ports acc =
     (fst acc \<and> ports_warnings f t ranges ports = [],
      (snd acc)\<lparr>warnings := warnings (snd acc) @ ports_warnings f t ranges ports\<rparr>)"
proof (induction ports arbitrary: acc)
  case Nil
  then show ?case by (simp add: ports_warnings_def)
next
  case (Cons x xs)
  obtain port service where x: "x = (port, service)" by (cases x)
  show ?case
    unfolding x by (auto simp add: Cons ip_ranges_loop_eq ports_warnings_def)
qed

lemma sensitive_loop_eq:
  "sensitive_loop rules acc =
     (fst acc \<and> concat (map rule_sensitive_warnings rules) = [],
      (snd acc)\<lparr>warnings := warnings (snd acc) @ concat (map rule_sensitive_warnings rules)\<rparr>)"
proof (induction rules arbitrary: acc)
  case Nil
  then show ?case by simp
next
  case (Cons r rs)
  show ?case
    by (auto simp add: Cons ports_loop_eq rule_sensitive_warnings_def split: option.splits)
qed

lemma all_protocol_loop_eq:
  "all_protocol_loop rules acc =
     (fst acc \<and> concat (map rule_all_protocol_warnings rules) = [],
      (snd acc)\<lparr>warnings := warnings (snd acc) @ concat (map rule_all_protocol_warnings rules)\<rparr>)"
proof (induction rules arbitrary: acc)
  case Nil
  then show ?case by simp
next
  case (Cons r rs)
  show ?case
    by (auto simp add: Cons ip_ranges_loop_eq rule_all_protocol_warnings_def)
qed

lemma validate_security_best_practices_eq:
  "validate_security_best_practices sg st =
     (True,
      st\<lparr>passed := passed st @
             (if concat (map rule_sensitive_warnings (IpPermissions sg)) = [] \<and>
                 concat (map rule_all_protocol_warnings (IpPermissions sg)) = []
              then [BestPracticesValidated] else []),
         warnings := warnings st @ concat (map rule_sensitive_warnings (IpPermissions sg)) @
                     concat (map rule_all_protocol_warnings (IpPermissions sg))\<rparr>)"
  by (simp add: validate_security_best_practices_def sensitive_loop_eq all_protocol_loop_eq
        add_passed_def Let_def)

lemma mset_concat_map_cong:
  "mset xs = mset ys \<Longrightarrow> mset (concat (map f xs)) = mset (concat (map f ys))"
proof -
  assume eq: "mset xs = mset ys"
  have "mset (concat (map f zs)) = sum_mset (image_mset (\<lambda>z. mset (f z)) (mset zs))" for zs
    by (induction zs) simp_all
  then show ?thesis using eq by simp
qed

lemma concat_map_Nil_cong:
  "set xs = set ys \<Longrightarrow> (concat (map f xs) = []) = (concat (map f ys) = [])"
  by auto


lemma validate_tags_eq:
  "validate_tags sg es st = (failed (tags_loop (actual_tags_of (Tags sg)) es st) = [],
                             tags_loop (actual_tags_of (Tags sg)) es st)"
  by (simp add: validate_tags_def Let_def)

subsection \<open>Tag comparison\<close>

text \<open>
  Claim C1, as the code has it. For each expected pair of key and value: a key that is not
  among the observed tags is recorded as the failure \<^verbatim>\<open>Tag k missing\<close> and the step returns
  \<^verbatim>\<open>False\<close>; a key observed with the expected value is recorded as passed; a key observed
  with a different, non-empty value is recorded as the warning \<^verbatim>\<open>Tag k differs\<close> and not
  as a failure. Every failure that the step adds names an expected key that is absent or
  observed with an empty value, so when every expected key is observed with a non-empty
  value the step adds no failure and returns \<^verbatim>\<open>True\<close> exactly if none had been recorded
  before: such a value mismatch does not fail the run. The step returns \<^verbatim>\<open>True\<close> iff no
  failure is recorded, and it removes none.
\<close>

theorem C1_tag_value_mismatch:
  assumes "validate_tags sg expected_tags st = (b, st')"
  shows "(\<forall>(k, v) \<in> set expected_tags.
            actual_tags_of (Tags sg) k = None \<longrightarrow> TagMissing k \<in> set (failed st') \<and> \<not> b) \<and>
         (\<forall>(k, v) \<in> set expected_tags.
            actual_tags_of (Tags sg) k = Some v \<longrightarrow> TagMatches k \<in> set (passed st')) \<and>
         (\<forall>(k, v) \<in> set expected_tags. \<forall>av.
            actual_tags_of (Tags sg) k = Some av \<and> av \<noteq> v \<and> av \<noteq> [] \<longrightarrow>
              TagDiffers k v av \<in> set (warnings st')) \<and>
         (\<forall>m \<in> set (drop (length (failed st)) (failed st')).
            \<exists>(k, v) \<in> set expected_tags. m = TagMissing k \<and>
              (actual_tags_of (Tags sg) k = None \<or> actual_tags_of (Tags sg) k = Some [])) \<and>
         ((\<forall>(k, v) \<in> set expected_tags. \<exists>av. actual_tags_of (Tags sg) k = Some av \<and> av \<noteq> []) \<longrightarrow>
            failed st' = failed st \<and> b = (failed st = [])) \<and>
         b = (failed st' = []) \<and> prefix (failed st) (failed st')"
proof -
  let ?at = "actual_tags_of (Tags sg)"
  let ?new = "map (\<lambda>(k, v). TagMissing k)
                (filter (\<lambda>(k, v). ?at k = None \<or> (?at k = Some [] \<and> v \<noteq> [])) expected_tags)"
  have st': "st' = tags_loop ?at expected_tags st" and b: "b = (failed st' = [])"
    using assms by (auto simp add: validate_tags_eq)
  have fl: "failed st' = failed st @ ?new"
    unfolding st' by (rule tags_loop_fields(2))
  have m: "TagMissing k \<in> set (failed st') \<and> \<not> b"
    if h: "(k, v) \<in> set expected_tags" "?at k = None" for k v
  proof -
    have "(k, v) \<in> set (filter (\<lambda>(k, v). ?at k = None \<or> (?at k = Some [] \<and> v \<noteq> [])) expected_tags)"
      using h by simp
    then have "(\<lambda>(k, v). TagMissing k) (k, v) \<in> set ?new"
      unfolding set_map by (rule imageI)
    then have "TagMissing k \<in> set (failed st')"
      unfolding fl by simp
    then show ?thesis using b by auto
  qed
  have p: "TagMatches k \<in> set (passed st')"
    if h: "(k, v) \<in> set expected_tags" "?at k = Some v" for k v
  proof -
    have "(k, v) \<in> set (filter (\<lambda>(k, v). ?at k = Some v) expected_tags)"
      using h by simp
    then have "(\<lambda>(k, v). TagMatches k) (k, v) \<in>
                 set (map (\<lambda>(k, v). TagMatches k) (filter (\<lambda>(k, v). ?at k = Some v) expected_tags))"
      unfolding set_map by (rule imageI)
    then show ?thesis
      unfolding st' tags_loop_fields(1) by simp
  qed
  have w: "TagDiffers k v av \<in> set (warnings st')"
    if h: "(k, v) \<in> set expected_tags" "?at k = Some av" "av \<noteq> v" "av \<noteq> []" for k v av
  proof -
    have "(k, v) \<in> set (filter (\<lambda>(k, v). ?at k \<noteq> None \<and> ?at k \<noteq> Some v \<and> ?at k \<noteq> Some [])
                          expected_tags)"
      using h by simp
    then have "(\<lambda>(k, v). TagDiffers k v (the (?at k))) (k, v) \<in>
                 set (map (\<lambda>(k, v). TagDiffers k v (the (?at k)))
                   (filter (\<lambda>(k, v). ?at k \<noteq> None \<and> ?at k \<noteq> Some v \<and> ?at k \<noteq> Some [])
                          expected_tags))"
      unfolding set_map by (rule imageI)
    then have "(\<lambda>(k, v). TagDiffers k v (the (?at k))) (k, v) \<in> set (warnings st')"
      unfolding st' tags_loop_fields(3) by simp
    then show ?thesis using h by simp
  qed
  have n: "\<exists>(k, v) \<in> set expected_tags. x = TagMissing k \<and> (?at k = None \<or> ?at k = Some [])"
    if h: "x \<in> set (drop (length (failed st)) (failed st'))" for x
  proof -
    have "x \<in> set ?new" using h unfolding fl by simp
    then show ?thesis by auto
  qed
  have f: "failed st' = failed st"
    if h: "\<forall>(k, v) \<in> set expected_tags. \<exists>av. ?at k = Some av \<and> av \<noteq> []"
  proof -
    have "filter (\<lambda>(k, v). ?at k = None \<or> (?at k = Some [] \<and> v \<noteq> [])) expected_tags = []"
      using h by (auto simp add: filter_empty_conv)
    then show ?thesis unfolding fl by simp
  qed
  have pre: "prefix (failed st) (failed st')"
    unfolding fl by simp
  have c1: "\<forall>(k, v) \<in> set expected_tags.
              ?at k = None \<longrightarrow> TagMissing k \<in> set (failed st') \<and> \<not> b"
    using m by auto
  have c2: "\<forall>(k, v) \<in> set expected_tags. ?at k = Some v \<longrightarrow> TagMatches k \<in> set (passed st')"
    using p by auto
  have c3: "\<forall>(k, v) \<in> set expected_tags. \<forall>av.
              ?at k = Some av \<and> av \<noteq> v \<and> av \<noteq> [] \<longrightarrow> TagDiffers k v av \<in> set (warnings st')"
    using w by auto
  have c4: "\<forall>m \<in> set (drop (length (failed st)) (failed st')).
              \<exists>(k, v) \<in> set expected_tags. m = TagMissing k \<and> (?at k = None \<or> ?at k = Some [])"
    using n by blast
  have c5: "(\<forall>(k, v) \<in> set expected_tags. \<exists>av. ?at k = Some av \<and> av \<noteq> []) \<longrightarrow>
              failed st' = failed st \<and> b = (failed st = [])"
    using f b by auto
  show ?thesis by (intro conjI c1 c2 c3 c4 c5 b pre)
qed

theorem C1_tag_value_mismatch_witness:
  "TagDiffers ''Environment'' ''prod'' ''staging'' \<in>
     set (warnings (snd (validate_tags
       \<lparr>VpcId = None, GroupName = None, Description = None, IpPermissions = [],
        IpPermissionsEgress = [], Tags = [(''Environment'', ''staging'')]\<rparr>
       [(''Environment'', ''prod'')] init_results))) \<and>
   fst (validate_tags
       \<lparr>VpcId = None, GroupName = None, Description = None, IpPermissions = [],
        IpPermissionsEgress = [], Tags = [(''Environment'', ''staging'')]\<rparr>
       [(''Environment'', ''prod'')] init_results) \<and>
   TagMissing ''Owner'' \<in>
     set (failed (snd (validate_tags
       \<lparr>VpcId = None, GroupName = None, Description = None, IpPermissions = [],
        IpPermissionsEgress = [], Tags = [(''Environment'', ''prod'')]\<rparr>
       [(''Environment'', ''prod''), (''Owner'', ''team'')] init_results))) \<and>
   TagMatches ''Environment'' \<in>
     set (passed (snd (validate_tags
       \<lparr>VpcId = None, GroupName = None, Description = None, IpPermissions = [],
        IpPermissionsEgress = [], Tags = [(''Environment'', ''prod'')]\<rparr>
       [(''Environment'', ''prod''), (''Owner'', ''team'')] init_results))) \<and>
   \<not> fst (validate_tags
       \<lparr>VpcId = None, GroupName = None, Description = None, IpPermissions = [],
        IpPermissionsEgress = [], Tags = [(''Environment'', ''prod'')]\<rparr>
       [(''Environment'', ''prod''), (''Owner'', ''team'')] init_results)"
proof -
  let ?sg1 = "\<lparr>VpcId = None, GroupName = None, Description = None, IpPermissions = [],
        IpPermissionsEgress = [], Tags = [(''Environment'', ''staging'')]\<rparr>"
  let ?sg2 = "\<lparr>VpcId = None, GroupName = None, Description = None, IpPermissions = [],
        IpPermissionsEgress = [], Tags = [(''Environment'', ''prod'')]\<rparr>"
  let ?r1 = "validate_tags ?sg1 [(''Environment'', ''prod'')] init_results"
  let ?r2 = "validate_tags ?sg2 [(''Environment'', ''prod''), (''Owner'', ''team'')] init_results"
  have h1: "validate_tags ?sg1 [(''Environment'', ''prod'')] init_results = (fst ?r1, snd ?r1)"
    by simp
  have h2: "validate_tags ?sg2 [(''Environment'', ''prod''), (''Owner'', ''team'')] init_results =
              (fst ?r2, snd ?r2)"
    by simp
  show ?thesis
    using C1_tag_value_mismatch [OF h1] C1_tag_value_mismatch [OF h2]
    by (simp add: actual_tags_of_def init_results_def)
qed

text \<open>
  The scenario of the specification, expected \<^verbatim>\<open>{Environment: prod}\<close> against observed
  \<^verbatim>\<open>{Environment: staging}\<close>: the step returns \<^verbatim>\<open>True\<close>, records one warning and no
  failure, and a run with nothing else to check exits with code 0.
\<close>

theorem C1_counterexample:
  "validate_tags
     \<lparr>VpcId = None, GroupName = None, Description = None, IpPermissions = [],
      IpPermissionsEgress = [], Tags = [(''Environment'', ''staging'')]\<rparr>
     [(''Environment'', ''prod'')] init_results =
     (True, \<lparr>passed = [], failed = [],
             warnings = [TagDiffers ''Environment'' ''prod'' ''staging'']\<rparr>) \<and>
   post_deployment_exit_code
     (Fetched \<lparr>VpcId = None, GroupName = None, Description = None, IpPermissions = [],
               IpPermissionsEgress = [], Tags = [(''Environment'', ''staging'')]\<rparr>)
     NoOutputsFile ''sg-1''
     \<lparr>vpc_id = None, security_group_name = None, cfg_description = None, ingress_rules = [],
      egress_rules = [], tags = [(''Environment'', ''prod'')]\<rparr> = 0"
  by (simp add: validate_tags_def actual_tags_of_def init_results_def add_warning_def
        add_passed_def post_deployment_exit_code_def run_all_validations_def
        validate_basic_properties_def validate_ingress_rules_def validate_egress_rules_def
        validate_security_best_practices_def validate_terraform_outputs_def)


subsection \<open>Sensitive ports open to any source\<close>

lemma ports_warnings_mem:
  assumes "(port, service) \<in> set ports" "f \<le> port" "port \<le> t" "''0.0.0.0/0'' \<in> set ranges"
  shows "OpenToInternet service port \<in> set (ports_warnings f t ranges ports)"
proof -
  have "OpenToInternet service port \<in> set (ip_ranges_warnings (OpenToInternet service port) ranges)"
    using assms(4) by (auto simp add: ip_ranges_warnings_def)
  then show ?thesis
    using assms(1-3) unfolding ports_warnings_def by (auto intro!: bexI [of _ "(port, service)"])
qed

text \<open>
  For an observed ingress rule whose \<^verbatim>\<open>FromPort\<close> and \<^verbatim>\<open>ToPort\<close> are both present and
  not 0, whose range includes one of the sensitive ports 22, 3389, 3306, 5432, 1433, 27017,
  6379 and whose \<^verbatim>\<open>IpRanges\<close> contain \<^verbatim>\<open>0.0.0.0/0\<close>, the best-practice check records the
  warning \<^verbatim>\<open>service (port p) is open to internet\<close>. The check records no failure and
  always returns \<^verbatim>\<open>True\<close>.
\<close>

lemma sensitive_port_open_flagged:
  assumes "rule \<in> set (IpPermissions sg)"
    and "FromPort rule = Some f" and "ToPort rule = Some t" and "f \<noteq> 0" and "t \<noteq> 0"
    and "(port, service) \<in> set sensitive_ports" and "f \<le> port" and "port \<le> t"
    and "''0.0.0.0/0'' \<in> set (IpRanges rule)"
  shows "fst (validate_security_best_practices sg st) \<and>
         OpenToInternet service port \<in> set (warnings (snd (validate_security_best_practices sg st))) \<and>
         failed (snd (validate_security_best_practices sg st)) = failed st \<and>
         fst ` set sensitive_ports = {22, 3389, 3306, 5432, 1433, 27017, 6379}"
proof -
  have "OpenToInternet service port \<in> set (rule_sensitive_warnings rule)"
    using assms(2-9) by (simp add: rule_sensitive_warnings_def ports_warnings_mem)
  then have "OpenToInternet service port \<in> set (concat (map rule_sensitive_warnings (IpPermissions sg)))"
    using assms(1) by auto
  moreover have "fst ` set sensitive_ports = {22, 3389, 3306, 5432, 1433, 27017, 6379}"
    by (auto simp add: sensitive_ports_def)
  ultimately show ?thesis
    by (simp add: validate_security_best_practices_eq)
qed

text \<open>
  The scenario of the specification: expected ingress 443 from \<^verbatim>\<open>0.0.0.0/0\<close>, observed
  the same rule and port 22 from \<^verbatim>\<open>0.0.0.0/0\<close>. The run records the found rule, a warning
  for one additional rule and a warning for SSH; the check being of warning severity, the
  verdict is \<^verbatim>\<open>True\<close> and the exit code is 0.
\<close>

lemma scenario_443_plus_22:
  "run_all_validations
     (Fetched \<lparr>VpcId = None, GroupName = None, Description = None,
       IpPermissions =
         [\<lparr>IpProtocol = Some ''tcp'', FromPort = Some 443, ToPort = Some 443,
           IpRanges = [''0.0.0.0/0'']\<rparr>,
          \<lparr>IpProtocol = Some ''tcp'', FromPort = Some 22, ToPort = Some 22,
           IpRanges = [''0.0.0.0/0'']\<rparr>],
       IpPermissionsEgress = [], Tags = []\<rparr>)
     NoOutputsFile ''sg-1''
     \<lparr>vpc_id = None, security_group_name = None, cfg_description = None,
      ingress_rules = [\<lparr>protocol = Some ''tcp'', from_port = Some 443, to_port = Some 443,
                        cidr_blocks = Some [''0.0.0.0/0''], description = None\<rparr>],
      egress_rules = [], tags = []\<rparr>
     init_results =
   Inr (True, \<lparr>passed = [IngressRuleFound 1 ''tcp'' 443 443], failed = [],
               warnings = [AdditionalIngressRules 1, OpenToInternet ''SSH'' 22,
                           OutputsFileNotFound ''outputs.json'']\<rparr>) \<and>
   post_deployment_exit_code
     (Fetched \<lparr>VpcId = None, GroupName = None, Description = None,
       IpPermissions =
         [\<lparr>IpProtocol = Some ''tcp'', FromPort = Some 443, ToPort = Some 443,
           IpRanges = [''0.0.0.0/0'']\<rparr>,
          \<lparr>IpProtocol = Some ''tcp'', FromPort = Some 22, ToPort = Some 22,
           IpRanges = [''0.0.0.0/0'']\<rparr>],
       IpPermissionsEgress = [], Tags = []\<rparr>)
     NoOutputsFile ''sg-1''
     \<lparr>vpc_id = None, security_group_name = None, cfg_description = None,
      ingress_rules = [\<lparr>protocol = Some ''tcp'', from_port = Some 443, to_port = Some 443,
                        cidr_blocks = Some [''0.0.0.0/0''], description = None\<rparr>],
      egress_rules = [], tags = []\<rparr> = 0"
  by (simp add: post_deployment_exit_code_def run_all_validations_def
        validate_basic_properties_def validate_ingress_rules_def validate_egress_rules_def
        validate_tags_def actual_tags_of_def validate_security_best_practices_def
        validate_terraform_outputs_def sensitive_ports_def init_results_def
        add_passed_def add_warning_def add_failed_def)


text \<open>
  Claim C2 says that every observed ingress rule whose port range includes a sensitive port
  and whose sources contain \<^verbatim>\<open>0.0.0.0/0\<close> is flagged. The rule for all TCP ports,
  \<^verbatim>\<open>FromPort = 0\<close> and \<^verbatim>\<open>ToPort = 65535\<close>, open to \<^verbatim>\<open>0.0.0.0/0\<close>, includes all seven
  sensitive ports, but the test \<^verbatim>\<open>if from_port and to_port\<close> is false for the port 0: the
  check records no warning and reports that the best practices are validated.
\<close>

theorem C2_port_zero_not_flagged:
  "validate_security_best_practices
     \<lparr>VpcId = None, GroupName = None, Description = None,
      IpPermissions = [\<lparr>IpProtocol = Some ''tcp'', FromPort = Some 0, ToPort = Some 65535,
                        IpRanges = [''0.0.0.0/0'']\<rparr>],
      IpPermissionsEgress = [], Tags = []\<rparr> init_results =
   (True, \<lparr>passed = [BestPracticesValidated], failed = [], warnings = []\<rparr>) \<and>
   map fst sensitive_ports = [22, 3389, 3306, 5432, 27017, 6379, 1433]"
  by (simp add: validate_security_best_practices_def sensitive_ports_def init_results_def
        add_passed_def)

subsection \<open>Rule matching\<close>

lemma validate_ingress_rules_Inr:
  assumes "validate_ingress_rules sg es st = Inr (b, st')"
  shows "\<exists>st1. ingress_loop (IpPermissions sg) 0 es st = Inr st1 \<and>
           passed st' = passed st1 \<and> failed st' = failed st1 \<and>
           warnings st' = warnings st1 @
             (if length (IpPermissions sg) > length es
              then [AdditionalIngressRules (length (IpPermissions sg) - length es)] else []) \<and>
           b = (failed st1 = [])"
  using assms by (auto simp add: validate_ingress_rules_def Let_def split: sum.splits if_splits)

text \<open>
  Claim C6, as the code has it. The search finds an expected rule iff some observed rule of
  the same direction has the same protocol, the same \<^verbatim>\<open>FromPort\<close> and \<^verbatim>\<open>ToPort\<close> and, when
  the expected rule specifies \<^verbatim>\<open>cidr_blocks\<close>, a set of CIDRs equal to them as a set; an
  expected rule without \<^verbatim>\<open>cidr_blocks\<close> is found on protocol and ports alone. The
  description plays no part. For ingress rules, when every expected rule that the search
  finds has \<^verbatim>\<open>protocol\<close>, \<^verbatim>\<open>from_port\<close> and \<^verbatim>\<open>to_port\<close> (so in particular when every
  expected rule has them), \<^verbatim>\<open>validate_ingress_rules\<close> returns, and the entries it has
  added to \<^verbatim>\<open>passed\<close> are exactly the found expected rules and those added to
  \<^verbatim>\<open>failed\<close> exactly the others, each carrying its rule; every expected rule is searched
  in the whole observed list, so several may match the same observed rule. For egress rules
  the step always returns and reports in the same way.
\<close>

theorem C6_rule_matching:
  "(find_matching_ingress_rule e rs \<longleftrightarrow>
      (\<exists>r\<in>set rs. IpProtocol r = protocol e \<and> FromPort r = from_port e \<and> ToPort r = to_port e \<and>
         (\<forall>cs. cidr_blocks e = Some cs \<longrightarrow> set (IpRanges r) = set cs))) \<and>
   (find_matching_egress_rule e rs \<longleftrightarrow>
      (\<exists>r\<in>set rs. IpProtocol r = protocol e \<and> FromPort r = from_port e \<and> ToPort r = to_port e \<and>
         (\<forall>cs. cidr_blocks e = Some cs \<longrightarrow> set (IpRanges r) = set cs))) \<and>
   find_matching_ingress_rule (e\<lparr>description := d\<rparr>) rs = find_matching_ingress_rule e rs \<and>
   find_matching_egress_rule (e\<lparr>description := d\<rparr>) rs = find_matching_egress_rule e rs \<and>
   ((\<forall>e\<in>set es. find_matching_ingress_rule e (IpPermissions sg) \<longrightarrow>
        protocol e \<noteq> None \<and> from_port e \<noteq> None \<and> to_port e \<noteq> None) \<longrightarrow>
      (\<exists>b st'. validate_ingress_rules sg es st = Inr (b, st') \<and>
         passed st' = passed st @
           map (\<lambda>(i, e). IngressRuleFound (i + 1) (the (protocol e)) (the (from_port e)) (the (to_port e)))
             (filter (\<lambda>(i, e). find_matching_ingress_rule e (IpPermissions sg)) (enumerate 0 es)) \<and>
         failed st' = failed st @
           map (\<lambda>(i, e). IngressRuleNotFound (i + 1) e)
             (filter (\<lambda>(i, e). \<not> find_matching_ingress_rule e (IpPermissions sg)) (enumerate 0 es)) \<and>
         b = (failed st' = []))) \<and>
   passed (snd (validate_egress_rules sg es st)) = passed st @
        map (\<lambda>(i, e). EgressRuleFound (i + 1))
          (filter (\<lambda>(i, e). find_matching_egress_rule e (IpPermissionsEgress sg)) (enumerate 0 es)) \<and>
   failed (snd (validate_egress_rules sg es st)) = failed st @
        map (\<lambda>(i, e). EgressRuleNotFound (i + 1) e)
          (filter (\<lambda>(i, e). \<not> find_matching_egress_rule e (IpPermissionsEgress sg)) (enumerate 0 es)) \<and>
   fst (validate_egress_rules sg es st) = (failed (snd (validate_egress_rules sg es st)) = [])"
proof -
  have 1: "find_matching_ingress_rule e rs \<longleftrightarrow>
      (\<exists>r\<in>set rs. IpProtocol r = protocol e \<and> FromPort r = from_port e \<and> ToPort r = to_port e \<and>
         (\<forall>cs. cidr_blocks e = Some cs \<longrightarrow> set (IpRanges r) = set cs))" for e
    unfolding find_matching_ingress_rule_iff by (cases "cidr_blocks e") simp_all
  have 2: "find_matching_egress_rule e rs \<longleftrightarrow>
      (\<exists>r\<in>set rs. IpProtocol r = protocol e \<and> FromPort r = from_port e \<and> ToPort r = to_port e \<and>
         (\<forall>cs. cidr_blocks e = Some cs \<longrightarrow> set (IpRanges r) = set cs))" for e
    unfolding find_matching_egress_rule_iff by (cases "cidr_blocks e") simp_all
  have 3: "find_matching_ingress_rule (e\<lparr>description := d\<rparr>) rs = find_matching_ingress_rule e rs"
    by (simp add: find_matching_ingress_rule_iff)
  have 4: "find_matching_egress_rule (e\<lparr>description := d\<rparr>) rs = find_matching_egress_rule e rs"
    by (simp add: find_matching_egress_rule_iff)
  have 5: "\<exists>b st'. validate_ingress_rules sg es st = Inr (b, st') \<and>
         passed st' = passed st @
           map (\<lambda>(i, e). IngressRuleFound (i + 1) (the (protocol e)) (the (from_port e)) (the (to_port e)))
             (filter (\<lambda>(i, e). find_matching_ingress_rule e (IpPermissions sg)) (enumerate 0 es)) \<and>
         failed st' = failed st @
           map (\<lambda>(i, e). IngressRuleNotFound (i + 1) e)
             (filter (\<lambda>(i, e). \<not> find_matching_ingress_rule e (IpPermissions sg)) (enumerate 0 es)) \<and>
         b = (failed st' = [])"
    if h: "\<forall>e\<in>set es. find_matching_ingress_rule e (IpPermissions sg) \<longrightarrow>
        protocol e \<noteq> None \<and> from_port e \<noteq> None \<and> to_port e \<noteq> None"
  proof -
    obtain st1 where l: "ingress_loop (IpPermissions sg) 0 es st = Inr st1"
      using h ingress_loop_total [of "IpPermissions sg" 0 es st] by blast
    then obtain b st' where v: "validate_ingress_rules sg es st = Inr (b, st')"
      by (simp add: validate_ingress_rules_def Let_def)
    obtain st2 where "ingress_loop (IpPermissions sg) 0 es st = Inr st2"
      "passed st' = passed st2" "failed st' = failed st2" "b = (failed st2 = [])"
      using validate_ingress_rules_Inr [OF v] by blast
    then have "passed st' = passed st1" "failed st' = failed st1" "b = (failed st' = [])"
      using l by simp_all
    then show ?thesis
      using v ingress_loop_Inr [OF l] by simp
  qed
  have 6: "passed (snd (validate_egress_rules sg es st)) = passed st @
        map (\<lambda>(i, e). EgressRuleFound (i + 1))
          (filter (\<lambda>(i, e). find_matching_egress_rule e (IpPermissionsEgress sg)) (enumerate 0 es))"
    and 7: "failed (snd (validate_egress_rules sg es st)) = failed st @
        map (\<lambda>(i, e). EgressRuleNotFound (i + 1) e)
          (filter (\<lambda>(i, e). \<not> find_matching_egress_rule e (IpPermissionsEgress sg)) (enumerate 0 es))"
    and 8: "fst (validate_egress_rules sg es st) = (failed (snd (validate_egress_rules sg es st)) = [])"
    by (simp_all add: validate_egress_rules_def Let_def egress_loop_fields)
  show ?thesis using 1 2 3 4 5 6 7 8 by blast
qed

theorem C6_rule_matching_witness:
  "find_matching_ingress_rule
     \<lparr>protocol = Some ''tcp'', from_port = Some 443, to_port = Some 443,
      cidr_blocks = Some [''10.0.0.0/8'', ''192.168.0.0/16''], description = Some ''https''\<rparr>
     [\<lparr>IpProtocol = Some ''tcp'', FromPort = Some 443, ToPort = Some 443,
       IpRanges = [''192.168.0.0/16'', ''10.0.0.0/8'', ''10.0.0.0/8'']\<rparr>] \<and>
   (\<exists>b st'. validate_ingress_rules
      \<lparr>VpcId = None, GroupName = None, Description = None,
       IpPermissions = [\<lparr>IpProtocol = Some ''tcp'', FromPort = Some 443, ToPort = Some 443,
                         IpRanges = [''192.168.0.0/16'', ''10.0.0.0/8'', ''10.0.0.0/8'']\<rparr>],
       IpPermissionsEgress = [], Tags = []\<rparr>
      [\<lparr>protocol = Some ''tcp'', from_port = Some 443, to_port = Some 443,
        cidr_blocks = Some [''10.0.0.0/8'', ''192.168.0.0/16''], description = Some ''https''\<rparr>,
       \<lparr>protocol = Some ''tcp'', from_port = Some 80, to_port = Some 80,
        cidr_blocks = Some [''10.0.0.0/8''], description = None\<rparr>]
      init_results = Inr (b, st') \<and> b = (failed st' = []))"
proof -
  let ?e1 = "\<lparr>protocol = Some ''tcp'', from_port = Some 443, to_port = Some 443,
      cidr_blocks = Some [''10.0.0.0/8'', ''192.168.0.0/16''], description = Some ''https''\<rparr>"
  let ?e2 = "\<lparr>protocol = Some ''tcp'', from_port = Some 80, to_port = Some 80,
        cidr_blocks = Some [''10.0.0.0/8''], description = None\<rparr>"
  let ?r = "\<lparr>IpProtocol = Some ''tcp'', FromPort = Some 443, ToPort = Some 443,
       IpRanges = [''192.168.0.0/16'', ''10.0.0.0/8'', ''10.0.0.0/8'']\<rparr>"
  let ?sg = "\<lparr>VpcId = None, GroupName = None, Description = None, IpPermissions = [?r],
       IpPermissionsEgress = [], Tags = []\<rparr>"
  note th = C6_rule_matching [where e = ?e1 and rs = "[?r]" and sg = ?sg and es = "[?e1, ?e2]"
      and st = init_results]
  have h: "\<forall>e\<in>set [?e1, ?e2]. find_matching_ingress_rule e (IpPermissions ?sg) \<longrightarrow>
        protocol e \<noteq> None \<and> from_port e \<noteq> None \<and> to_port e \<noteq> None"
    by simp
  have f: "find_matching_ingress_rule ?e1 [?r]"
    using th by auto
  have "\<exists>b st'. validate_ingress_rules ?sg [?e1, ?e2] init_results = Inr (b, st') \<and>
          b = (failed st' = [])"
    using th h by blast
  then show ?thesis using f by blast
qed

text \<open>
  An expected rule without \<^verbatim>\<open>cidr_blocks\<close> is found although the only observed rule with
  its protocol and ports has the non-empty CIDR set \<^verbatim>\<open>{10.0.0.0/8}\<close>, which is not equal
  to any CIDRs of the expected rule, since it has none.
\<close>

theorem C6_counterexample:
  "find_matching_ingress_rule
     \<lparr>protocol = Some ''tcp'', from_port = Some 443, to_port = Some 443,
      cidr_blocks = None, description = None\<rparr>
     [\<lparr>IpProtocol = Some ''tcp'', FromPort = Some 443, ToPort = Some 443,
       IpRanges = [''10.0.0.0/8'']\<rparr>] \<and>
   cidr_blocks \<lparr>protocol = Some ''tcp'', from_port = Some 443, to_port = Some 443,
                cidr_blocks = None, description = None\<rparr> = None \<and>
   set (IpRanges \<lparr>IpProtocol = Some ''tcp'', FromPort = Some 443, ToPort = Some 443,
                  IpRanges = [''10.0.0.0/8'']\<rparr>) \<noteq> set [] \<and>
   validate_ingress_rules
     \<lparr>VpcId = None, GroupName = None, Description = None,
      IpPermissions = [\<lparr>IpProtocol = Some ''tcp'', FromPort = Some 443, ToPort = Some 443,
                        IpRanges = [''10.0.0.0/8'']\<rparr>],
      IpPermissionsEgress = [], Tags = []\<rparr>
     [\<lparr>protocol = Some ''tcp'', from_port = Some 443, to_port = Some 443,
       cidr_blocks = None, description = None\<rparr>]
     init_results =
   Inr (True, \<lparr>passed = [IngressRuleFound 1 ''tcp'' 443 443], failed = [], warnings = []\<rparr>)"
  by (simp add: validate_ingress_rules_def init_results_def add_passed_def)

subsection \<open>The result of a step and the failures recorded so far\<close>

lemma validate_basic_properties_Inr:
  "validate_basic_properties sg cfg st = Inr (b, st') \<Longrightarrow>
     b = (failed st' = []) \<and> prefix (failed st) (failed st')"
  by (auto simp add: validate_basic_properties_def Let_def split: option.splits if_splits)

lemma validate_terraform_outputs_failed:
  "validate_terraform_outputs file sgid sg st = (b, st') \<Longrightarrow>
     prefix (failed st) (failed st') \<and> b = (file = NoOutputsFile \<or> failed st' = [])"
  by (cases "file")
    (auto simp add: validate_terraform_outputs_def Let_def
      split: output_entry.splits option.splits if_splits)

text \<open>
  Claim C10, as the code has it. The steps for basic properties, ingress rules, egress rules
  and tags, when they return, return \<^verbatim>\<open>True\<close> iff the list of failures recorded so far is
  empty, and the step for the terraform outputs does so when the outputs file exists; with
  no outputs file that step returns \<^verbatim>\<open>True\<close> whatever has been recorded. No step removes a
  recorded failure, so after a failure each of these steps returns \<^verbatim>\<open>False\<close>, the outputs
  step with no file excepted. The best-practice step always returns \<^verbatim>\<open>True\<close> and records
  no failure.
\<close>

theorem C10_step_results:
  "(validate_basic_properties sg cfg st = Inr (b, st') \<longrightarrow>
      b = (failed st' = []) \<and> prefix (failed st) (failed st') \<and> (failed st \<noteq> [] \<longrightarrow> \<not> b)) \<and>
   (validate_ingress_rules sg es st = Inr (b, st') \<longrightarrow>
      b = (failed st' = []) \<and> prefix (failed st) (failed st') \<and> (failed st \<noteq> [] \<longrightarrow> \<not> b)) \<and>
   (validate_egress_rules sg es st = (b, st') \<longrightarrow>
      b = (failed st' = []) \<and> prefix (failed st) (failed st') \<and> (failed st \<noteq> [] \<longrightarrow> \<not> b)) \<and>
   (validate_tags sg ts st = (b, st') \<longrightarrow>
      b = (failed st' = []) \<and> prefix (failed st) (failed st') \<and> (failed st \<noteq> [] \<longrightarrow> \<not> b)) \<and>
   (validate_terraform_outputs file sgid sg st = (b, st') \<longrightarrow>
      b = (file = NoOutputsFile \<or> failed st' = []) \<and> prefix (failed st) (failed st') \<and>
      (failed st \<noteq> [] \<and> file \<noteq> NoOutputsFile \<longrightarrow> \<not> b)) \<and>
   (validate_security_best_practices sg st = (b, st') \<longrightarrow> b \<and> failed st' = failed st)"
proof -
  have p: "failed st \<noteq> [] \<Longrightarrow> prefix (failed st) xs \<Longrightarrow> xs \<noteq> []" for xs
    by auto
  have 1: "b = (failed st' = []) \<and> prefix (failed st) (failed st') \<and> (failed st \<noteq> [] \<longrightarrow> \<not> b)"
    if "validate_basic_properties sg cfg st = Inr (b, st')"
    using validate_basic_properties_Inr [OF that] p by blast
  have 2: "b = (failed st' = []) \<and> prefix (failed st) (failed st') \<and> (failed st \<noteq> [] \<longrightarrow> \<not> b)"
    if h: "validate_ingress_rules sg es st = Inr (b, st')"
  proof -
    obtain st1 where "ingress_loop (IpPermissions sg) 0 es st = Inr st1"
      "failed st' = failed st1" "b = (failed st1 = [])"
      using validate_ingress_rules_Inr [OF h] by blast
    then show ?thesis using ingress_loop_Inr [of "IpPermissions sg" 0 es st st1] by auto
  qed
  have 3: "b = (failed st' = []) \<and> prefix (failed st) (failed st') \<and> (failed st \<noteq> [] \<longrightarrow> \<not> b)"
    if "validate_egress_rules sg es st = (b, st')"
    using that by (auto simp add: validate_egress_rules_def Let_def egress_loop_fields)
  have 4: "b = (failed st' = []) \<and> prefix (failed st) (failed st') \<and> (failed st \<noteq> [] \<longrightarrow> \<not> b)"
    if "validate_tags sg ts st = (b, st')"
    using that by (auto simp add: validate_tags_eq tags_loop_fields)
  have 5: "b = (file = NoOutputsFile \<or> failed st' = []) \<and> prefix (failed st) (failed st') \<and>
      (failed st \<noteq> [] \<and> file \<noteq> NoOutputsFile \<longrightarrow> \<not> b)"
    if "validate_terraform_outputs file sgid sg st = (b, st')"
    using validate_terraform_outputs_failed [OF that] p by blast
  have 6: "b \<and> failed st' = failed st" if "validate_security_best_practices sg st = (b, st')"
    using that by (auto simp add: validate_security_best_practices_eq)
  show ?thesis using 1 2 3 4 5 6 by blast
qed

theorem C10_step_results_witness:
  "validate_tags
     \<lparr>VpcId = Some ''vpc-2'', GroupName = None, Description = None, IpPermissions = [],
      IpPermissionsEgress = [], Tags = [(''Environment'', ''prod'')]\<rparr>
     [(''Environment'', ''prod'')]
     \<lparr>passed = [], failed = [VpcMismatch ''vpc-1'' (Some ''vpc-2'')], warnings = []\<rparr> =
   (False, \<lparr>passed = [TagMatches ''Environment''],
            failed = [VpcMismatch ''vpc-1'' (Some ''vpc-2'')], warnings = []\<rparr>) \<and>
   prefix [VpcMismatch ''vpc-1'' (Some ''vpc-2'')]
     (failed \<lparr>passed = [TagMatches ''Environment''],
            failed = [VpcMismatch ''vpc-1'' (Some ''vpc-2'')], warnings = []\<rparr>)"
  using C10_step_results [of
     "\<lparr>VpcId = Some ''vpc-2'', GroupName = None, Description = None, IpPermissions = [],
      IpPermissionsEgress = [], Tags = [(''Environment'', ''prod'')]\<rparr>"
     "\<lparr>vpc_id = None, security_group_name = None, cfg_description = None, ingress_rules = [],
      egress_rules = [], tags = []\<rparr>"
     "\<lparr>passed = [], failed = [VpcMismatch ''vpc-1'' (Some ''vpc-2'')], warnings = []\<rparr>"
     False
     "\<lparr>passed = [TagMatches ''Environment''],
            failed = [VpcMismatch ''vpc-1'' (Some ''vpc-2'')], warnings = []\<rparr>"
     "[]" "[(''Environment'', ''prod'')]" NoOutputsFile "''sg-1''"]
  by (simp add: validate_tags_def actual_tags_of_def add_passed_def add_warning_def
        validate_terraform_outputs_def validate_security_best_practices_def)

text \<open>
  With a failure already recorded and no outputs file, the outputs step returns \<^verbatim>\<open>True\<close>.
\<close>

theorem C10_counterexample:
  "validate_terraform_outputs NoOutputsFile ''sg-1''
     \<lparr>VpcId = Some ''vpc-2'', GroupName = None, Description = None, IpPermissions = [],
      IpPermissionsEgress = [], Tags = []\<rparr>
     \<lparr>passed = [], failed = [VpcMismatch ''vpc-1'' (Some ''vpc-2'')], warnings = []\<rparr> =
   (True, \<lparr>passed = [], failed = [VpcMismatch ''vpc-1'' (Some ''vpc-2'')],
           warnings = [OutputsFileNotFound ''outputs.json'']\<rparr>)"
  by (simp add: validate_terraform_outputs_def add_warning_def)


subsection \<open>Additional and reordered observed rules\<close>

lemma run_all_validations_Fetched:
  "run_all_validations (Fetched sg) file sgid cfg st =
     (case validate_basic_properties sg cfg st of
        Inl e \<Rightarrow> Inl e
      | Inr x1 \<Rightarrow>
         (case validate_ingress_rules sg (ingress_rules cfg) (snd x1) of
            Inl e \<Rightarrow> Inl e
          | Inr x2 \<Rightarrow>
             (let x3 = validate_egress_rules sg (egress_rules cfg) (snd x2);
                  x4 = validate_tags sg (tags cfg) (snd x3);
                  x5 = validate_security_best_practices sg (snd x4);
                  x6 = validate_terraform_outputs file sgid sg (snd x5)
              in Inr (fst x1 \<and> fst x2 \<and> fst x3 \<and> fst x4 \<and> fst x5 \<and> fst x6, snd x6))))"
  by (simp add: run_all_validations_def Let_def split: sum.splits prod.splits)

lemma validate_basic_properties_rules_irrelevant:
  "validate_basic_properties (sg\<lparr>IpPermissions := rs, IpPermissionsEgress := rs2\<rparr>) cfg st =
   validate_basic_properties sg cfg st"
  by (simp add: validate_basic_properties_def Let_def
        cong: option.case_cong sum.case_cong if_cong)

lemma find_matching_ingress_rule_mono:
  "find_matching_ingress_rule e rs \<Longrightarrow> set rs \<subseteq> set rs' \<Longrightarrow> find_matching_ingress_rule e rs'"
  unfolding find_matching_ingress_rule_iff by blast

lemma find_matching_egress_rule_mono:
  "find_matching_egress_rule e rs \<Longrightarrow> set rs \<subseteq> set rs' \<Longrightarrow> find_matching_egress_rule e rs'"
  unfolding find_matching_egress_rule_iff by blast

lemma ingress_loop_mono:
  assumes "ingress_loop rs idx es st = Inr st1" and "failed st1 = []" and "set rs \<subseteq> set rs'"
  shows "ingress_loop rs' idx es st = Inr st1"
  using assms
proof (induction es arbitrary: idx st)
  case Nil
  then show ?case by simp
next
  case (Cons e es)
  show ?case
  proof (cases "find_matching_ingress_rule e rs")
    case True
    then have "find_matching_ingress_rule e rs'"
      using Cons.prems(3) by (rule find_matching_ingress_rule_mono)
    then show ?thesis
      using True Cons.prems Cons.IH by (auto split: option.splits)
  next
    case False
    then have "ingress_loop rs (idx + 1) es (add_failed (IngressRuleNotFound (idx + 1) e) st) = Inr st1"
      using Cons.prems(1) by simp
    from ingress_loop_Inr [OF this] have "failed st1 \<noteq> []" by simp
    then show ?thesis using Cons.prems(2) by simp
  qed
qed

lemma validate_ingress_rules_mono:
  assumes "validate_ingress_rules sg es st = Inr (True, st2)"
    and "set (IpPermissions sg) \<subseteq> set rs'"
  shows "\<exists>st2'. validate_ingress_rules (sg\<lparr>IpPermissions := rs', IpPermissionsEgress := rs2'\<rparr>) es st =
                   Inr (True, st2') \<and> failed st2' = []"
proof -
  obtain st1 where l: "ingress_loop (IpPermissions sg) 0 es st = Inr st1" and f: "failed st1 = []"
    using validate_ingress_rules_Inr [OF assms(1)] by auto
  have "ingress_loop rs' 0 es st = Inr st1"
    using l f assms(2) by (rule ingress_loop_mono)
  then show ?thesis using f by (simp add: validate_ingress_rules_def Let_def)
qed

lemma validate_egress_rules_mono:
  assumes "fst (validate_egress_rules sg es st)" and "failed st' = []"
    and "set (IpPermissionsEgress sg) \<subseteq> set rs2'"
  shows "fst (validate_egress_rules (sg\<lparr>IpPermissions := rs', IpPermissionsEgress := rs2'\<rparr>) es st') \<and>
         failed (snd (validate_egress_rules (sg\<lparr>IpPermissions := rs', IpPermissionsEgress := rs2'\<rparr>) es st')) = []"
proof -
  have "filter (\<lambda>(i, e). \<not> find_matching_egress_rule e (IpPermissionsEgress sg)) (enumerate 0 es) = []"
    using assms(1) by (simp add: validate_egress_rules_def Let_def egress_loop_fields)
  then have "filter (\<lambda>(i, e). \<not> find_matching_egress_rule e rs2') (enumerate 0 es) = []"
    using assms(3) by (auto simp add: filter_empty_conv dest: find_matching_egress_rule_mono)
  then show ?thesis
    using assms(2) by (simp add: validate_egress_rules_def Let_def egress_loop_fields)
qed

lemma validate_tags_cong:
  assumes "fst (validate_tags sg ts st)" and "failed st' = []" and "Tags sg' = Tags sg"
  shows "fst (validate_tags sg' ts st') \<and> failed (snd (validate_tags sg' ts st')) = []"
  using assms by (simp add: validate_tags_eq tags_loop_fields)

lemma validate_terraform_outputs_fst_cong:
  assumes "failed st' = failed st" and "GroupName sg' = GroupName sg"
  shows "fst (validate_terraform_outputs file sgid sg' st') =
         fst (validate_terraform_outputs file sgid sg st)"
  using assms
  by (cases "file")
    (auto simp add: validate_terraform_outputs_def Let_def
      split: output_entry.splits option.splits)

text \<open>
  Claim C7, as the code has it. The ingress step does not report the observed rules that
  match no expected rule: it compares the two counts and, when more rules are observed than
  expected, records one warning with the difference. Warnings do not enter the verdict, and
  observed rules only help the search: a run whose verdict is \<^verbatim>\<open>True\<close> keeps that verdict
  when observed ingress or egress rules are added.
\<close>

theorem C7_additional_rules:
  "(validate_ingress_rules sg es st = Inr (b, st') \<longrightarrow>
      warnings st' = warnings st @
        (if length (IpPermissions sg) > length es
         then [AdditionalIngressRules (length (IpPermissions sg) - length es)] else [])) \<and>
   (run_all_validations (Fetched sg) file sgid cfg st = Inr (True, stf) \<and>
    set (IpPermissions sg) \<subseteq> set rs' \<and> set (IpPermissionsEgress sg) \<subseteq> set rs2' \<longrightarrow>
      (\<exists>stf'. run_all_validations
                (Fetched (sg\<lparr>IpPermissions := rs', IpPermissionsEgress := rs2'\<rparr>)) file sgid cfg st =
              Inr (True, stf')))"
proof -
  let ?sg' = "sg\<lparr>IpPermissions := rs', IpPermissionsEgress := rs2'\<rparr>"
  have 1: "warnings st' = warnings st @
        (if length (IpPermissions sg) > length es
         then [AdditionalIngressRules (length (IpPermissions sg) - length es)] else [])"
    if h: "validate_ingress_rules sg es st = Inr (b, st')"
  proof -
    obtain st1 where "ingress_loop (IpPermissions sg) 0 es st = Inr st1"
      "warnings st' = warnings st1 @
             (if length (IpPermissions sg) > length es
              then [AdditionalIngressRules (length (IpPermissions sg) - length es)] else [])"
      using validate_ingress_rules_Inr [OF h] by blast
    then show ?thesis using ingress_loop_Inr [of "IpPermissions sg" 0 es st st1] by simp
  qed
  have 2: "\<exists>stf'. run_all_validations (Fetched ?sg') file sgid cfg st = Inr (True, stf')"
    if run: "run_all_validations (Fetched sg) file sgid cfg st = Inr (True, stf)"
      and sub1: "set (IpPermissions sg) \<subseteq> set rs'"
      and sub2: "set (IpPermissionsEgress sg) \<subseteq> set rs2'"
  proof -
    obtain x1 where vb: "validate_basic_properties sg cfg st = Inr x1"
      using run by (auto simp add: run_all_validations_Fetched split: sum.splits)
    obtain x2 where vi: "validate_ingress_rules sg (ingress_rules cfg) (snd x1) = Inr x2"
      using run vb by (auto simp add: run_all_validations_Fetched split: sum.splits)
    let ?x3 = "validate_egress_rules sg (egress_rules cfg) (snd x2)"
    let ?x4 = "validate_tags sg (tags cfg) (snd ?x3)"
    let ?x5 = "validate_security_best_practices sg (snd ?x4)"
    let ?x6 = "validate_terraform_outputs file sgid sg (snd ?x5)"
    have all: "fst x1" "fst x2" "fst ?x3" "fst ?x4" "fst ?x6"
      using run vb vi by (simp_all add: run_all_validations_Fetched Let_def)
    have vb': "validate_basic_properties ?sg' cfg st = Inr x1"
      using vb by (simp add: validate_basic_properties_rules_irrelevant)
    have "validate_ingress_rules sg (ingress_rules cfg) (snd x1) = Inr (True, snd x2)"
      using vi all(2) by (cases x2) simp
    then obtain st2' where vi': "validate_ingress_rules ?sg' (ingress_rules cfg) (snd x1) = Inr (True, st2')"
      and f2: "failed st2' = []"
      using validate_ingress_rules_mono [OF _ sub1] by blast
    let ?y3 = "validate_egress_rules ?sg' (egress_rules cfg) st2'"
    let ?y4 = "validate_tags ?sg' (tags cfg) (snd ?y3)"
    let ?y5 = "validate_security_best_practices ?sg' (snd ?y4)"
    let ?y6 = "validate_terraform_outputs file sgid ?sg' (snd ?y5)"
    have y3: "fst ?y3" "failed (snd ?y3) = []"
      using validate_egress_rules_mono [OF all(3) f2 sub2] by simp_all
    have y4: "fst ?y4" "failed (snd ?y4) = []"
      using validate_tags_cong [OF all(4) y3(2), of ?sg'] by simp_all
    have y5: "fst ?y5" "failed (snd ?y5) = []"
      using y4(2) by (simp_all add: validate_security_best_practices_eq)
    have "failed (snd ?x4) = []"
      using all(4) by (simp add: validate_tags_eq)
    then have "failed (snd ?x5) = []"
      by (simp add: validate_security_best_practices_eq)
    then have "fst ?y6 = fst ?x6"
      using y5(2) by (intro validate_terraform_outputs_fst_cong) simp_all
    then have y6: "fst ?y6" using all(5) by simp
    show ?thesis
      using vb' vi' all(1) y3(1) y4(1) y5(1) y6
      by (simp add: run_all_validations_Fetched Let_def)
  qed
  show ?thesis using 1 2 by blast
qed


theorem C7_additional_rules_witness:
  "\<exists>stf'. run_all_validations
     (Fetched \<lparr>VpcId = None, GroupName = None, Description = None,
       IpPermissions =
         [\<lparr>IpProtocol = Some ''tcp'', FromPort = Some 443, ToPort = Some 443,
           IpRanges = [''0.0.0.0/0'']\<rparr>,
          \<lparr>IpProtocol = Some ''tcp'', FromPort = Some 22, ToPort = Some 22,
           IpRanges = [''0.0.0.0/0'']\<rparr>],
       IpPermissionsEgress = [], Tags = []\<rparr>)
     NoOutputsFile ''sg-1''
     \<lparr>vpc_id = None, security_group_name = None, cfg_description = None,
      ingress_rules = [\<lparr>protocol = Some ''tcp'', from_port = Some 443, to_port = Some 443,
                        cidr_blocks = Some [''0.0.0.0/0''], description = None\<rparr>],
      egress_rules = [], tags = []\<rparr>
     init_results = Inr (True, stf')"
  using C7_additional_rules [of
     "\<lparr>VpcId = None, GroupName = None, Description = None,
       IpPermissions =
         [\<lparr>IpProtocol = Some ''tcp'', FromPort = Some 443, ToPort = Some 443,
           IpRanges = [''0.0.0.0/0'']\<rparr>],
       IpPermissionsEgress = [], Tags = []\<rparr>"
     "[]" init_results True init_results
     NoOutputsFile "''sg-1''"
     "\<lparr>vpc_id = None, security_group_name = None, cfg_description = None,
      ingress_rules = [\<lparr>protocol = Some ''tcp'', from_port = Some 443, to_port = Some 443,
                        cidr_blocks = Some [''0.0.0.0/0''], description = None\<rparr>],
      egress_rules = [], tags = []\<rparr>"
     "\<lparr>passed = [IngressRuleFound 1 ''tcp'' 443 443, BestPracticesValidated], failed = [],
       warnings = [OutputsFileNotFound ''outputs.json'']\<rparr>"
     "[\<lparr>IpProtocol = Some ''tcp'', FromPort = Some 443, ToPort = Some 443,
           IpRanges = [''0.0.0.0/0'']\<rparr>,
          \<lparr>IpProtocol = Some ''tcp'', FromPort = Some 22, ToPort = Some 22,
           IpRanges = [''0.0.0.0/0'']\<rparr>]"
     "[]"]
  by (simp add: run_all_validations_def
        validate_basic_properties_def validate_ingress_rules_def validate_egress_rules_def
        validate_tags_def actual_tags_of_def validate_security_best_practices_def
        validate_terraform_outputs_def sensitive_ports_def init_results_def
        add_passed_def add_warning_def add_failed_def)

text \<open>
  Two rules expected and two observed, one of the observed rules (port 8080) matching no
  expected rule: the step records no warning at all, so the unexpected rule is not
  reported.
\<close>

theorem C7_counterexample:
  "validate_ingress_rules
     \<lparr>VpcId = None, GroupName = None, Description = None,
      IpPermissions =
        [\<lparr>IpProtocol = Some ''tcp'', FromPort = Some 443, ToPort = Some 443,
          IpRanges = [''0.0.0.0/0'']\<rparr>,
         \<lparr>IpProtocol = Some ''tcp'', FromPort = Some 8080, ToPort = Some 8080,
          IpRanges = [''0.0.0.0/0'']\<rparr>],
      IpPermissionsEgress = [], Tags = []\<rparr>
     [\<lparr>protocol = Some ''tcp'', from_port = Some 443, to_port = Some 443,
       cidr_blocks = Some [''0.0.0.0/0''], description = None\<rparr>,
      \<lparr>protocol = Some ''tcp'', from_port = Some 80, to_port = Some 80,
       cidr_blocks = Some [''0.0.0.0/0''], description = None\<rparr>]
     init_results =
   Inr (False,
        \<lparr>passed = [IngressRuleFound 1 ''tcp'' 443 443],
         failed = [IngressRuleNotFound 2
                    \<lparr>protocol = Some ''tcp'', from_port = Some 80, to_port = Some 80,
                     cidr_blocks = Some [''0.0.0.0/0''], description = None\<rparr>],
         warnings = []\<rparr>) \<and>
   \<not> find_matching_ingress_rule
       \<lparr>protocol = Some ''tcp'', from_port = Some 443, to_port = Some 443,
        cidr_blocks = Some [''0.0.0.0/0''], description = None\<rparr>
       [\<lparr>IpProtocol = Some ''tcp'', FromPort = Some 8080, ToPort = Some 8080,
         IpRanges = [''0.0.0.0/0'']\<rparr>] \<and>
   \<not> find_matching_ingress_rule
       \<lparr>protocol = Some ''tcp'', from_port = Some 80, to_port = Some 80,
        cidr_blocks = Some [''0.0.0.0/0''], description = None\<rparr>
       [\<lparr>IpProtocol = Some ''tcp'', FromPort = Some 8080, ToPort = Some 8080,
         IpRanges = [''0.0.0.0/0'']\<rparr>]"
  by (simp add: validate_ingress_rules_def init_results_def add_passed_def add_failed_def)

lemma find_matching_ingress_rule_set_cong:
  "set rs = set rs' \<Longrightarrow> find_matching_ingress_rule e rs = find_matching_ingress_rule e rs'"
  by (simp add: find_matching_ingress_rule_iff)

lemma find_matching_egress_rule_set_cong:
  "set rs = set rs' \<Longrightarrow> find_matching_egress_rule e rs = find_matching_egress_rule e rs'"
  by (simp add: find_matching_egress_rule_iff)

lemma ingress_loop_set_cong:
  "set rs = set rs' \<Longrightarrow> ingress_loop rs idx es st = ingress_loop rs' idx es st"
proof (induction es arbitrary: idx st)
  case Nil
  then show ?case by simp
next
  case (Cons e es)
  have "find_matching_ingress_rule e rs = find_matching_ingress_rule e rs'"
    using Cons.prems by (rule find_matching_ingress_rule_set_cong)
  then show ?case using Cons by (simp split: option.splits)
qed

lemma egress_loop_set_cong:
  "set rs = set rs' \<Longrightarrow> egress_loop rs idx es st = egress_loop rs' idx es st"
proof (induction es arbitrary: idx st)
  case Nil
  then show ?case by simp
next
  case (Cons e es)
  have "find_matching_egress_rule e rs = find_matching_egress_rule e rs'"
    using Cons.prems by (rule find_matching_egress_rule_set_cong)
  then show ?case using Cons by simp
qed

lemma validate_ingress_rules_perm:
  assumes "mset rs' = mset (IpPermissions sg)"
  shows "validate_ingress_rules (sg\<lparr>IpPermissions := rs', IpPermissionsEgress := rs2'\<rparr>) es st =
         validate_ingress_rules sg es st"
proof -
  have "set rs' = set (IpPermissions sg)" "length rs' = length (IpPermissions sg)"
    using assms by (auto dest: mset_eq_setD mset_eq_length)
  then show ?thesis
    using ingress_loop_set_cong [of rs' "IpPermissions sg" 0 es st]
    by (simp add: validate_ingress_rules_def Let_def cong: sum.case_cong if_cong)
qed

lemma validate_egress_rules_perm:
  assumes "mset rs2' = mset (IpPermissionsEgress sg)"
  shows "validate_egress_rules (sg\<lparr>IpPermissions := rs', IpPermissionsEgress := rs2'\<rparr>) es st =
         validate_egress_rules sg es st"
proof -
  have "set rs2' = set (IpPermissionsEgress sg)"
    using assms by (auto dest: mset_eq_setD)
  then show ?thesis
    using egress_loop_set_cong [of rs2' "IpPermissionsEgress sg" 0 es st]
    by (simp add: validate_egress_rules_def Let_def)
qed

lemma validate_tags_rules_irrelevant:
  "validate_tags (sg\<lparr>IpPermissions := rs', IpPermissionsEgress := rs2'\<rparr>) ts st =
   validate_tags sg ts st"
  by (simp add: validate_tags_def Let_def)

lemma validate_security_best_practices_perm:
  assumes "mset rs' = mset (IpPermissions sg)"
  shows "fst (validate_security_best_practices (sg\<lparr>IpPermissions := rs', IpPermissionsEgress := rs2'\<rparr>) st) =
           fst (validate_security_best_practices sg st)"
    and "passed (snd (validate_security_best_practices (sg\<lparr>IpPermissions := rs', IpPermissionsEgress := rs2'\<rparr>) st)) =
           passed (snd (validate_security_best_practices sg st))"
    and "failed (snd (validate_security_best_practices (sg\<lparr>IpPermissions := rs', IpPermissionsEgress := rs2'\<rparr>) st)) =
           failed (snd (validate_security_best_practices sg st))"
    and "mset (warnings (snd (validate_security_best_practices (sg\<lparr>IpPermissions := rs', IpPermissionsEgress := rs2'\<rparr>) st))) =
           mset (warnings (snd (validate_security_best_practices sg st)))"
proof -
  have s: "set rs' = set (IpPermissions sg)"
    using assms by (rule mset_eq_setD)
  have e1: "(concat (map rule_sensitive_warnings rs') = []) =
            (concat (map rule_sensitive_warnings (IpPermissions sg)) = [])"
    using s by (rule concat_map_Nil_cong)
  have e2: "(concat (map rule_all_protocol_warnings rs') = []) =
            (concat (map rule_all_protocol_warnings (IpPermissions sg)) = [])"
    using s by (rule concat_map_Nil_cong)
  have m1: "mset (concat (map rule_sensitive_warnings rs')) =
            mset (concat (map rule_sensitive_warnings (IpPermissions sg)))"
    using assms by (rule mset_concat_map_cong)
  have m2: "mset (concat (map rule_all_protocol_warnings rs')) =
            mset (concat (map rule_all_protocol_warnings (IpPermissions sg)))"
    using assms by (rule mset_concat_map_cong)
  show "fst (validate_security_best_practices (sg\<lparr>IpPermissions := rs', IpPermissionsEgress := rs2'\<rparr>) st) =
           fst (validate_security_best_practices sg st)"
    by (simp add: validate_security_best_practices_eq)
  show "passed (snd (validate_security_best_practices (sg\<lparr>IpPermissions := rs', IpPermissionsEgress := rs2'\<rparr>) st)) =
           passed (snd (validate_security_best_practices sg st))"
    using e1 e2 by (simp add: validate_security_best_practices_eq)
  show "failed (snd (validate_security_best_practices (sg\<lparr>IpPermissions := rs', IpPermissionsEgress := rs2'\<rparr>) st)) =
           failed (snd (validate_security_best_practices sg st))"
    by (simp add: validate_security_best_practices_eq)
  show "mset (warnings (snd (validate_security_best_practices (sg\<lparr>IpPermissions := rs', IpPermissionsEgress := rs2'\<rparr>) st))) =
           mset (warnings (snd (validate_security_best_practices sg st)))"
    using m1 m2 by (simp add: validate_security_best_practices_eq)
qed

lemma validate_terraform_outputs_sim:
  assumes "passed st' = passed st" and "failed st' = failed st"
    and "mset (warnings st') = mset (warnings st)" and "GroupName sg' = GroupName sg"
  shows "fst (validate_terraform_outputs file sgid sg' st') =
           fst (validate_terraform_outputs file sgid sg st) \<and>
         passed (snd (validate_terraform_outputs file sgid sg' st')) =
           passed (snd (validate_terraform_outputs file sgid sg st)) \<and>
         failed (snd (validate_terraform_outputs file sgid sg' st')) =
           failed (snd (validate_terraform_outputs file sgid sg st)) \<and>
         mset (warnings (snd (validate_terraform_outputs file sgid sg' st'))) =
           mset (warnings (snd (validate_terraform_outputs file sgid sg st)))"
  using assms
  by (cases "file")
    (auto simp add: validate_terraform_outputs_def Let_def
      split: output_entry.splits option.splits)


text \<open>
  Claim C9. When the observed ingress rules and the observed egress rules are each replaced
  by a permutation, the ingress step and the egress step return the same result and leave
  the same entries, and the whole run has the same verdict (or raises the same exception),
  the same \<^verbatim>\<open>passed\<close> and \<^verbatim>\<open>failed\<close> entries and the same multiset of warnings.
\<close>

theorem C9_observed_order_irrelevant:
  assumes "mset rs' = mset (IpPermissions sg)" and "mset rs2' = mset (IpPermissionsEgress sg)"
  shows "validate_ingress_rules (sg\<lparr>IpPermissions := rs', IpPermissionsEgress := rs2'\<rparr>) es st =
           validate_ingress_rules sg es st \<and>
         validate_egress_rules (sg\<lparr>IpPermissions := rs', IpPermissionsEgress := rs2'\<rparr>) es st =
           validate_egress_rules sg es st \<and>
         map_sum id (\<lambda>(b, s). (b, passed s, failed s, mset (warnings s)))
           (run_all_validations (Fetched (sg\<lparr>IpPermissions := rs', IpPermissionsEgress := rs2'\<rparr>))
              file sgid cfg st) =
         map_sum id (\<lambda>(b, s). (b, passed s, failed s, mset (warnings s)))
           (run_all_validations (Fetched sg) file sgid cfg st)"
proof -
  let ?sg' = "sg\<lparr>IpPermissions := rs', IpPermissionsEgress := rs2'\<rparr>"
  let ?abs = "map_sum id (\<lambda>(b, s). (b, passed s, failed s, mset (warnings s)))"
  have vi: "validate_ingress_rules ?sg' es st = validate_ingress_rules sg es st" for es st
    using assms(1) by (rule validate_ingress_rules_perm)
  have ve: "validate_egress_rules ?sg' es st = validate_egress_rules sg es st" for es st
    using assms(2) by (rule validate_egress_rules_perm)
  have run: "?abs (run_all_validations (Fetched ?sg') file sgid cfg st) =
             ?abs (run_all_validations (Fetched sg) file sgid cfg st)"
  proof (cases "validate_basic_properties sg cfg st")
    case (Inl e)
    then show ?thesis
      by (simp add: run_all_validations_Fetched validate_basic_properties_rules_irrelevant)
  next
    case (Inr x1)
    show ?thesis
    proof (cases "validate_ingress_rules sg (ingress_rules cfg) (snd x1)")
      case (Inl e)
      then show ?thesis
        using Inr by (simp add: run_all_validations_Fetched validate_basic_properties_rules_irrelevant vi)
    next
      case x2: (Inr x2)
      let ?x4 = "validate_tags sg (tags cfg) (snd (validate_egress_rules sg (egress_rules cfg) (snd x2)))"
      let ?x5 = "validate_security_best_practices sg (snd ?x4)"
      let ?y5 = "validate_security_best_practices ?sg' (snd ?x4)"
      let ?x6 = "validate_terraform_outputs file sgid sg (snd ?x5)"
      let ?y6 = "validate_terraform_outputs file sgid ?sg' (snd ?y5)"
      have b5: "fst ?y5 = fst ?x5" "passed (snd ?y5) = passed (snd ?x5)"
        "failed (snd ?y5) = failed (snd ?x5)" "mset (warnings (snd ?y5)) = mset (warnings (snd ?x5))"
        using validate_security_best_practices_perm [OF assms(1)] by simp_all
      have b6: "fst ?y6 = fst ?x6 \<and> passed (snd ?y6) = passed (snd ?x6) \<and>
                failed (snd ?y6) = failed (snd ?x6) \<and>
                mset (warnings (snd ?y6)) = mset (warnings (snd ?x6))"
        using b5(2-4) by (intro validate_terraform_outputs_sim) simp_all
      show ?thesis
        using Inr x2 b5(1) b6
        by (simp add: run_all_validations_Fetched validate_basic_properties_rules_irrelevant vi ve
              validate_tags_rules_irrelevant Let_def split_beta)
    qed
  qed
  show ?thesis using vi ve run by blast
qed

theorem C9_observed_order_irrelevant_witness:
  "validate_ingress_rules
     \<lparr>VpcId = None, GroupName = None, Description = None,
      IpPermissions =
        [\<lparr>IpProtocol = Some ''tcp'', FromPort = Some 22, ToPort = Some 22,
          IpRanges = [''0.0.0.0/0'']\<rparr>,
         \<lparr>IpProtocol = Some ''tcp'', FromPort = Some 443, ToPort = Some 443,
          IpRanges = [''0.0.0.0/0'']\<rparr>],
      IpPermissionsEgress = [], Tags = []\<rparr>
     [\<lparr>protocol = Some ''tcp'', from_port = Some 443, to_port = Some 443,
       cidr_blocks = Some [''0.0.0.0/0''], description = None\<rparr>]
     init_results =
   validate_ingress_rules
     \<lparr>VpcId = None, GroupName = None, Description = None,
      IpPermissions =
        [\<lparr>IpProtocol = Some ''tcp'', FromPort = Some 443, ToPort = Some 443,
          IpRanges = [''0.0.0.0/0'']\<rparr>,
         \<lparr>IpProtocol = Some ''tcp'', FromPort = Some 22, ToPort = Some 22,
          IpRanges = [''0.0.0.0/0'']\<rparr>],
      IpPermissionsEgress = [], Tags = []\<rparr>
     [\<lparr>protocol = Some ''tcp'', from_port = Some 443, to_port = Some 443,
       cidr_blocks = Some [''0.0.0.0/0''], description = None\<rparr>]
     init_results"
proof -
  have h1: "mset [\<lparr>IpProtocol = Some ''tcp'', FromPort = Some 22, ToPort = Some 22,
                   IpRanges = [''0.0.0.0/0'']\<rparr>,
                  \<lparr>IpProtocol = Some ''tcp'', FromPort = Some 443, ToPort = Some 443,
                   IpRanges = [''0.0.0.0/0'']\<rparr>] =
            mset (IpPermissions
              \<lparr>VpcId = None, GroupName = None, Description = None,
               IpPermissions =
                 [\<lparr>IpProtocol = Some ''tcp'', FromPort = Some 443, ToPort = Some 443,
                   IpRanges = [''0.0.0.0/0'']\<rparr>,
                  \<lparr>IpProtocol = Some ''tcp'', FromPort = Some 22, ToPort = Some 22,
                   IpRanges = [''0.0.0.0/0'']\<rparr>],
               IpPermissionsEgress = [], Tags = []\<rparr>)"
    by simp
  have h2: "mset [] = mset (IpPermissionsEgress
              \<lparr>VpcId = None, GroupName = None, Description = None,
               IpPermissions =
                 [\<lparr>IpProtocol = Some ''tcp'', FromPort = Some 443, ToPort = Some 443,
                   IpRanges = [''0.0.0.0/0'']\<rparr>,
                  \<lparr>IpProtocol = Some ''tcp'', FromPort = Some 22, ToPort = Some 22,
                   IpRanges = [''0.0.0.0/0'']\<rparr>],
               IpPermissionsEgress = [], Tags = []\<rparr>)"
    by simp
  show ?thesis
    using C9_observed_order_irrelevant [OF h1 h2, of
      "[\<lparr>protocol = Some ''tcp'', from_port = Some 443, to_port = Some 443,
         cidr_blocks = Some [''0.0.0.0/0''], description = None\<rparr>]" init_results]
    by simp
qed

section \<open>Properties of the static validation\<close>

lemma cfg_add_simps [simp]:
  "errors (add_error m v) = errors v @ [m]" "cfg_warnings (add_error m v) = cfg_warnings v"
  "errors (add_cfg_warning m v) = errors v" "cfg_warnings (add_cfg_warning m v) = cfg_warnings v @ [m]"
  by (simp_all add: add_error_def add_cfg_warning_def)

lemma cfg_ports_loop_fields:
  "errors (cfg_ports_loop n f t ports v) = errors v"
  "cfg_warnings (cfg_ports_loop n f t ports v) =
     cfg_warnings v @ map (PortOpenToInternet n) (filter (\<lambda>port. f \<le> port \<and> port \<le> t) ports)"
  by (induction ports arbitrary: v) simp_all

lemma missing_fields_Nil_iff:
  "missing_fields rule = [] \<longleftrightarrow>
     from_port rule \<noteq> None \<and> to_port rule \<noteq> None \<and> protocol rule \<noteq> None \<and> cidr_blocks rule \<noteq> None"
  by (simp add: missing_fields_def)

lemma check_complete_rule_fields:
  assumes "from_port rule = Some f" "to_port rule = Some t" "protocol rule = Some p"
    "cidr_blocks rule = Some cidrs"
  shows "errors (check_complete_rule n f t p cidrs (description rule) v) = errors v @ rule_errors n rule"
    and "cfg_warnings (check_complete_rule n f t p cidrs (description rule) v) =
           cfg_warnings v @ rule_cfg_warnings n rule"
  using assms
  by (simp_all add: check_complete_rule_def Let_def rule_errors_def rule_cfg_warnings_def
        cfg_ports_loop_fields missing_fields_def)

lemma cfg_ingress_loop_fields:
  "errors (cfg_ingress_loop idx rules v) =
     errors v @ concat (map (\<lambda>(i, r). rule_errors (i + 1) r) (enumerate idx rules))"
  "cfg_warnings (cfg_ingress_loop idx rules v) =
     cfg_warnings v @ concat (map (\<lambda>(i, r). rule_cfg_warnings (i + 1) r) (enumerate idx rules))"
proof (induction rules arbitrary: idx v)
  case Nil
  case 1 show ?case by simp
  case 2 show ?case by simp
next
  case (Cons rule rules)
  case 1
  show ?case
  proof (cases "missing_fields rule = []")
    case True
    then obtain f t p cidrs where h: "from_port rule = Some f" "to_port rule = Some t"
      "protocol rule = Some p" "cidr_blocks rule = Some cidrs"
      by (auto simp add: missing_fields_Nil_iff)
    show ?thesis
      using True h by (simp add: Cons.IH check_complete_rule_fields)
  next
    case False
    then show ?thesis by (simp add: Cons.IH rule_errors_def)
  qed
  case 2
  show ?case
  proof (cases "missing_fields rule = []")
    case True
    then obtain f t p cidrs where h: "from_port rule = Some f" "to_port rule = Some t"
      "protocol rule = Some p" "cidr_blocks rule = Some cidrs"
      by (auto simp add: missing_fields_Nil_iff)
    show ?thesis
      using True h by (simp add: Cons.IH check_complete_rule_fields)
  next
    case False
    then have "rule_cfg_warnings (idx + 1) rule = []"
      by (auto simp add: rule_cfg_warnings_def missing_fields_Nil_iff split: option.splits)
    then show ?thesis using False by (simp add: Cons.IH)
  qed
qed

lemma enumerate_nth_mem:
  "i < length rules \<Longrightarrow> (i, rules ! i) \<in> set (enumerate 0 rules)"
  by (simp add: in_set_enumerate_eq)


text \<open>
  Claim C8, as the code has it. For a non-empty rule list the static validation records an
  error for every rule that misses one of \<^verbatim>\<open>from_port\<close>, \<^verbatim>\<open>to_port\<close>, \<^verbatim>\<open>protocol\<close>,
  \<^verbatim>\<open>cidr_blocks\<close>, and an error for every complete rule with \<^verbatim>\<open>from_port > to_port\<close>
  (whatever its protocol), and then returns \<^verbatim>\<open>False\<close>. A protocol other than
  \<^verbatim>\<open>tcp\<close>, \<^verbatim>\<open>udp\<close>, \<^verbatim>\<open>icmp\<close>, \<^verbatim>\<open>-1\<close> is recorded as a warning, not as an error: when
  every rule is complete with \<^verbatim>\<open>from_port \<le> to_port\<close>, no error is added and the result
  is \<^verbatim>\<open>True\<close> iff no error had been recorded before.
\<close>

theorem C8_static_rule_validation:
  assumes "cfg_validate_ingress_rules rules v = (b, v')"
  shows "(\<forall>i<length rules. missing_fields (rules ! i) \<noteq> [] \<longrightarrow>
            MissingFields (i + 1) (missing_fields (rules ! i)) \<in> set (errors v') \<and> \<not> b) \<and>
         (\<forall>i<length rules. \<forall>f t. missing_fields (rules ! i) = [] \<and>
              from_port (rules ! i) = Some f \<and> to_port (rules ! i) = Some t \<and> f > t \<longrightarrow>
            PortRangeInvalid (i + 1) f t \<in> set (errors v') \<and> \<not> b) \<and>
         (\<forall>i<length rules. \<forall>p. missing_fields (rules ! i) = [] \<and>
              protocol (rules ! i) = Some p \<and> p \<notin> set valid_protocols \<longrightarrow>
            UnusualProtocol (i + 1) p \<in> set (cfg_warnings v')) \<and>
         ((\<forall>r\<in>set rules. missing_fields r = [] \<and>
              (\<forall>f t. from_port r = Some f \<and> to_port r = Some t \<longrightarrow> f \<le> t)) \<longrightarrow>
            errors v' = errors v \<and> b = (rules = [] \<or> errors v = [])) \<and>
         (missing_fields r = [] \<longleftrightarrow>
            from_port r \<noteq> None \<and> to_port r \<noteq> None \<and> protocol r \<noteq> None \<and> cidr_blocks r \<noteq> None)"
proof -
  have v': "v' = (if rules = [] then v else cfg_ingress_loop 0 rules v)"
    and b: "b = (rules = [] \<or> errors v' = [])"
    using assms by (auto simp add: cfg_validate_ingress_rules_def Let_def split: if_splits)
  have errs: "set (rule_errors (i + 1) (rules ! i)) \<subseteq> set (errors v')" if "i < length rules" for i
  proof -
    have "rules \<noteq> []" using that by auto
    moreover have "(i, rules ! i) \<in> set (enumerate 0 rules)"
      using that by (rule enumerate_nth_mem)
    ultimately show ?thesis
      unfolding v' by (fastforce simp add: cfg_ingress_loop_fields)
  qed
  have warns: "set (rule_cfg_warnings (i + 1) (rules ! i)) \<subseteq> set (cfg_warnings v')"
    if "i < length rules" for i
  proof -
    have "rules \<noteq> []" using that by auto
    moreover have "(i, rules ! i) \<in> set (enumerate 0 rules)"
      using that by (rule enumerate_nth_mem)
    ultimately show ?thesis
      unfolding v' by (fastforce simp add: cfg_ingress_loop_fields)
  qed
  have 1: "MissingFields (i + 1) (missing_fields (rules ! i)) \<in> set (errors v') \<and> \<not> b"
    if "i < length rules" "missing_fields (rules ! i) \<noteq> []" for i
  proof -
    have "MissingFields (i + 1) (missing_fields (rules ! i)) \<in> set (errors v')"
      using errs [OF that(1)] that(2) by (simp add: rule_errors_def)
    moreover have "rules \<noteq> []" using that(1) by auto
    ultimately show ?thesis using b by auto
  qed
  have 2: "PortRangeInvalid (i + 1) f t \<in> set (errors v') \<and> \<not> b"
    if "i < length rules" "missing_fields (rules ! i) = []" "from_port (rules ! i) = Some f"
      "to_port (rules ! i) = Some t" "f > t" for i f t
  proof -
    have "PortRangeInvalid (i + 1) f t \<in> set (errors v')"
      using errs [OF that(1)] that(2-5) by (simp add: rule_errors_def)
    moreover have "rules \<noteq> []" using that(1) by auto
    ultimately show ?thesis using b by auto
  qed
  have 3: "UnusualProtocol (i + 1) p \<in> set (cfg_warnings v')"
    if h: "i < length rules" "missing_fields (rules ! i) = []" "protocol (rules ! i) = Some p"
      "p \<notin> set valid_protocols" for i p
  proof -
    obtain f t cidrs where "from_port (rules ! i) = Some f" "to_port (rules ! i) = Some t"
      "cidr_blocks (rules ! i) = Some cidrs"
      using h(2) by (auto simp add: missing_fields_Nil_iff)
    then have "UnusualProtocol (i + 1) p \<in> set (rule_cfg_warnings (i + 1) (rules ! i))"
      using h(3,4) by (simp add: rule_cfg_warnings_def)
    then show ?thesis using warns [OF h(1)] by blast
  qed
  have 4: "errors v' = errors v \<and> b = (rules = [] \<or> errors v = [])"
    if h: "\<forall>r\<in>set rules. missing_fields r = [] \<and>
              (\<forall>f t. from_port r = Some f \<and> to_port r = Some t \<longrightarrow> f \<le> t)"
  proof -
    have "rule_errors n r = []" if "r \<in> set rules" for n r
      using h that by (auto simp add: rule_errors_def split: option.splits)
    then have "concat (map (\<lambda>(i, r). rule_errors (i + 1) r) (enumerate 0 rules)) = []"
      by (auto simp add: in_set_enumerate_eq)
    then have "errors v' = errors v"
      unfolding v' by (simp add: cfg_ingress_loop_fields)
    then show ?thesis using b by simp
  qed
  show ?thesis using 1 2 3 4 missing_fields_Nil_iff [of r] by blast
qed

theorem C8_static_rule_validation_witness:
  "MissingFields 1 [''cidr_blocks''] \<in> set (errors (snd (cfg_validate_ingress_rules
      [\<lparr>protocol = Some ''tcp'', from_port = Some 80, to_port = Some 80, cidr_blocks = None,
        description = None\<rparr>,
       \<lparr>protocol = Some ''tcp'', from_port = Some 90, to_port = Some 80,
        cidr_blocks = Some [''10.0.0.0/8''], description = None\<rparr>]
      init_config_validator))) \<and>
   PortRangeInvalid 2 90 80 \<in> set (errors (snd (cfg_validate_ingress_rules
      [\<lparr>protocol = Some ''tcp'', from_port = Some 80, to_port = Some 80, cidr_blocks = None,
        description = None\<rparr>,
       \<lparr>protocol = Some ''tcp'', from_port = Some 90, to_port = Some 80,
        cidr_blocks = Some [''10.0.0.0/8''], description = None\<rparr>]
      init_config_validator))) \<and>
   \<not> fst (cfg_validate_ingress_rules
      [\<lparr>protocol = Some ''tcp'', from_port = Some 80, to_port = Some 80, cidr_blocks = None,
        description = None\<rparr>,
       \<lparr>protocol = Some ''tcp'', from_port = Some 90, to_port = Some 80,
        cidr_blocks = Some [''10.0.0.0/8''], description = None\<rparr>]
      init_config_validator)"
proof -
  let ?rules = "[\<lparr>protocol = Some ''tcp'', from_port = Some 80, to_port = Some 80, cidr_blocks = None,
        description = None\<rparr>,
       \<lparr>protocol = Some ''tcp'', from_port = Some 90, to_port = Some 80,
        cidr_blocks = Some [''10.0.0.0/8''], description = None\<rparr>]"
  let ?res = "cfg_validate_ingress_rules ?rules init_config_validator"
  have h: "cfg_validate_ingress_rules ?rules init_config_validator = (fst ?res, snd ?res)"
    by simp
  have "\<forall>i<length ?rules. missing_fields (?rules ! i) \<noteq> [] \<longrightarrow>
            MissingFields (i + 1) (missing_fields (?rules ! i)) \<in> set (errors (snd ?res)) \<and> \<not> fst ?res"
    and "\<forall>i<length ?rules. \<forall>f t. missing_fields (?rules ! i) = [] \<and>
              from_port (?rules ! i) = Some f \<and> to_port (?rules ! i) = Some t \<and> f > t \<longrightarrow>
            PortRangeInvalid (i + 1) f t \<in> set (errors (snd ?res)) \<and> \<not> fst ?res"
    using C8_static_rule_validation [OF h] by blast+
  from this(1) [rule_format, of 0] this(2) [rule_format, of 1 90 80]
  show ?thesis by (simp add: missing_fields_def numeral_2_eq_2)
qed

text \<open>
  A complete rule with the protocol \<^verbatim>\<open>sctp\<close>: the validation returns \<^verbatim>\<open>True\<close> with no
  error and one warning.
\<close>

theorem C8_counterexample:
  "cfg_validate_ingress_rules
     [\<lparr>protocol = Some ''sctp'', from_port = Some 80, to_port = Some 80,
       cidr_blocks = Some [''10.0.0.0/8''], description = Some ''sctp service''\<rparr>]
     init_config_validator =
   (True, \<lparr>errors = [], cfg_warnings = [UnusualProtocol 1 ''sctp'']\<rparr>)"
  by (simp add: cfg_validate_ingress_rules_def init_config_validator_def missing_fields_def
        check_complete_rule_def valid_protocols_def add_cfg_warning_def)

section \<open>Properties of the phase orchestrator\<close>

subsection \<open>What a phase changes\<close>

lemma runner_simps [simp]:
  "trace (emit e r) = trace r @ [e]" "results (emit e r) = results r"
  "security_group_id (emit e r) = security_group_id r"
  "trace (set_status p s r) = trace r" "security_group_id (set_status p s r) = security_group_id r"
  "trace (add_detail p d r) = trace r" "security_group_id (add_detail p d r) = security_group_id r"
  "q \<noteq> p \<Longrightarrow> results (set_status p s r) q = results r q"
  "q \<noteq> p \<Longrightarrow> results (add_detail p d r) q = results r q"
  by (simp_all add: emit_def set_status_def add_detail_def)

lemma phase_1_frame:
  assumes "phase_1_pre_deployment_validation cfg ev r = (out, r')"
  shows "(\<exists>evs. trace r' = trace r @ Banner PreDeployment # evs \<and>
            (\<forall>e\<in>set evs. loop_event [] e)) \<and>
         (\<forall>q. q \<noteq> PreDeployment \<longrightarrow> results r' q = results r q) \<and>
         (\<forall>e. out = Inl e \<longrightarrow> results r' = results r)"
  using assms
  by (auto simp add: phase_1_pre_deployment_validation_def Let_def destroy_command_def
        split: if_splits)

lemma phase_2_frame:
  assumes "phase_2_terraform_native_tests cfg ev r = (out, r')"
  shows "(\<exists>evs. trace r' = trace r @ Banner TerraformTest # evs \<and>
            (\<forall>e\<in>set evs. loop_event [] e)) \<and>
         (\<forall>q. q \<noteq> TerraformTest \<longrightarrow> results r' q = results r q) \<and>
         (\<forall>e. out = Inl e \<longrightarrow> results r' = results r)"
  using assms
  by (auto simp add: phase_2_terraform_native_tests_def Let_def destroy_command_def
        split: if_splits sum.splits)

lemma phase_3_run_tests_frame:
  assumes "phase_3_run_tests ev r = (out, r')"
  shows "(\<exists>evs. trace r' = trace r @ evs \<and> (\<forall>e\<in>set evs. loop_event [] e)) \<and>
         (\<forall>q. q \<noteq> IntegrationTest \<longrightarrow> results r' q = results r q) \<and>
         (\<forall>e. out = Inl e \<longrightarrow> results r' = results r)"
  using assms
  by (auto simp add: phase_3_run_tests_def Let_def destroy_command_def pytest_command_def
        split: if_splits option.splits)

lemma phase_3_frame:
  assumes "phase_3_deploy_and_integration_test cfg ev r = (out, r')"
  shows "(\<exists>evs. trace r' = trace r @ Banner IntegrationTest # evs \<and>
            (\<forall>e\<in>set evs. loop_event [] e)) \<and>
         (\<forall>q. q \<noteq> IntegrationTest \<longrightarrow> results r' q = results r q) \<and>
         (\<forall>e. out = Inl e \<longrightarrow> results r' = results r)"
proof -
  let ?r4 = "emit (Command [''terraform'', ''output'', ''-json''])
               (emit (Command [''terraform'', ''apply'', ''-auto-approve'', ''tfplan''])
                 (emit (Command [''terraform'', ''plan'', ''-out=tfplan''])
                   (emit (Command [''terraform'', ''init'']) (emit (Banner IntegrationTest) r))))"
  have t: "phase_3_run_tests ev x = (out, r') \<Longrightarrow> trace x = trace ?r4 \<Longrightarrow> results x = results r \<Longrightarrow>
           ?thesis" for x
    using phase_3_run_tests_frame [of ev x out r']
    by (auto simp add: destroy_command_def)
  show ?thesis
    using assms t
    by (auto simp add: phase_3_deploy_and_integration_test_def Let_def destroy_command_def
          split: if_splits sum.splits option.splits)
qed

lemma phase_4_frame:
  assumes "phase_4_post_deployment_validation cfg ev r = (out, r')"
  shows "(\<exists>evs. trace r' = trace r @ Banner PostDeployment # evs \<and>
            (\<forall>e\<in>set evs. loop_event [] e)) \<and>
         (\<forall>q. q \<noteq> PostDeployment \<longrightarrow> results r' q = results r q) \<and>
         (\<forall>e. out = Inl e \<longrightarrow> results r' = results r)"
  using assms
  by (auto simp add: phase_4_post_deployment_validation_def Let_def destroy_command_def
        split: if_splits option.splits)

lemma phase_func_frame:
  assumes "phase_func p cfg ev r = (out, r')"
  shows "(\<exists>evs. trace r' = trace r @ Banner p # evs \<and> (\<forall>e\<in>set evs. loop_event [] e)) \<and>
         (\<forall>q. q \<noteq> p \<longrightarrow> results r' q = results r q) \<and>
         (\<forall>e. out = Inl e \<longrightarrow> results r' = results r)"
  using assms phase_1_frame phase_2_frame phase_3_frame phase_4_frame
  by (cases p) simp_all

lemma phase_func_destroy_rc:
  "phase_func p cfg (ev\<lparr>destroy_rc := x\<rparr>) r = phase_func p cfg ev r"
  by (cases p)
    (simp_all add: phase_1_pre_deployment_validation_def phase_2_terraform_native_tests_def
      phase_3_deploy_and_integration_test_def phase_3_run_tests_def
      phase_4_post_deployment_validation_def Let_def
      cong: if_cong option.case_cong sum.case_cong)


subsection \<open>The loop over the phases\<close>

lemma loop_event_mono:
  "loop_event ps e \<Longrightarrow> set ps \<subseteq> set ps' \<Longrightarrow> loop_event ps' e"
  by (cases e) auto

lemma run_phases_False: "fst (run_phases cfg ev ps False r) = False"
  by (induction ps arbitrary: r) (auto split: prod.splits sum.splits)

lemma run_phases_destroy_rc:
  "run_phases cfg (ev\<lparr>destroy_rc := x\<rparr>) ps ok r = run_phases cfg ev ps ok r"
  by (induction ps arbitrary: ok r)
    (simp_all add: phase_func_destroy_rc Let_def
      cong: prod.case_cong sum.case_cong if_cong)

lemma run_phases_append:
  assumes "run_phases cfg ev pre ok r0 = (True, r)"
  shows "ok \<and> run_phases cfg ev (pre @ rest) ok r0 = run_phases cfg ev rest True r"
  using assms
proof (induction pre arbitrary: ok r0)
  case Nil
  then show ?case by simp
next
  case (Cons p pre)
  obtain out r1 where ph: "phase_func p cfg ev r0 = (out, r1)"
    by (cases "phase_func p cfg ev r0")
  show ?case
  proof (cases out)
    case (Inl e)
    then have nf: "\<not> fail_fast cfg"
      and run: "run_phases cfg ev pre False (emit (ExceptionIn p e) r1) = (True, r)"
      using Cons.prems ph by (auto simp add: Let_def split: if_splits)
    from Cons.IH [OF run] show ?thesis by simp
  next
    case (Inr result)
    show ?thesis
    proof (cases result)
      case True
      then have run: "run_phases cfg ev pre ok r1 = (True, r)"
        using Cons.prems ph Inr by simp
      from Cons.IH [OF run] have ok: "ok"
        and eq: "run_phases cfg ev (pre @ rest) True r1 = run_phases cfg ev rest True r"
        by auto
      show ?thesis using ok eq ph Inr True by auto
    next
      case False
      then have run: "run_phases cfg ev pre False r1 = (True, r)"
        using Cons.prems ph Inr by (auto split: if_splits)
      from Cons.IH [OF run] show ?thesis by simp
    qed
  qed
qed

lemma run_phases_frame:
  assumes "run_phases cfg ev ps ok r = (ok', r')"
  shows "(\<forall>q. q \<notin> set ps \<longrightarrow> results r' q = results r q) \<and>
         (\<exists>evs. trace r' = trace r @ evs \<and> (\<forall>e\<in>set evs. loop_event ps e))"
  using assms
proof (induction ps arbitrary: ok r)
  case Nil
  then show ?case by simp
next
  case (Cons p ps)
  obtain out r1 where ph: "phase_func p cfg ev r = (out, r1)"
    by (cases "phase_func p cfg ev r")
  from phase_func_frame [OF ph] obtain evs1 where
    t1: "trace r1 = trace r @ Banner p # evs1" and e1: "\<forall>e\<in>set evs1. loop_event [] e"
    and f1: "\<forall>q. q \<noteq> p \<longrightarrow> results r1 q = results r q"
    by blast
  have e1': "\<forall>e\<in>set (Banner p # evs1). loop_event (p # ps) e"
    using e1 by (auto intro: loop_event_mono)
  have step: "(\<forall>q. q \<notin> set (p # ps) \<longrightarrow> results r' q = results r q) \<and>
         (\<exists>evs. trace r' = trace r @ evs \<and> (\<forall>e\<in>set evs. loop_event (p # ps) e))"
    if run: "run_phases cfg ev ps ok2 r2 = (ok', r')" and res2: "results r2 = results r1"
      and t2: "trace r2 = trace r1 @ evs2" and e2: "\<forall>e\<in>set evs2. loop_event (p # ps) e"
    for ok2 r2 evs2
  proof -
    from Cons.IH [OF run] obtain evs where
      f: "\<forall>q. q \<notin> set ps \<longrightarrow> results r' q = results r2 q"
      and t: "trace r' = trace r2 @ evs" and e: "\<forall>e\<in>set evs. loop_event ps e"
      by blast
    have "trace r' = trace r @ (Banner p # evs1 @ evs2 @ evs)"
      using t t2 t1 by simp
    moreover have "\<forall>e\<in>set (Banner p # evs1 @ evs2 @ evs). loop_event (p # ps) e"
      using e1' e2 e by (auto intro: loop_event_mono)
    ultimately show ?thesis using f f1 res2 by (metis list.set_intros(1,2))
  qed
  have stop: "(\<forall>q. q \<notin> set (p # ps) \<longrightarrow> results r' q = results r q) \<and>
         (\<exists>evs. trace r' = trace r @ evs \<and> (\<forall>e\<in>set evs. loop_event (p # ps) e))"
    if "results r' = results r1" and "trace r' = trace r1 @ evs2"
      and "\<forall>e\<in>set evs2. loop_event (p # ps) e" for evs2
  proof -
    have "trace r' = trace r @ (Banner p # evs1 @ evs2)"
      using that(2) t1 by simp
    moreover have "\<forall>e\<in>set (Banner p # evs1 @ evs2). loop_event (p # ps) e"
      using e1' that(3) by auto
    ultimately show ?thesis using f1 that(1) by (metis list.set_intros(1))
  qed
  show ?case
  proof (cases out)
    case (Inl e)
    show ?thesis
    proof (cases "fail_fast cfg")
      case True
      then have "r' = emit (ExceptionIn p e) r1"
        using Cons.prems ph Inl by (simp add: Let_def)
      then show ?thesis using stop [of "[ExceptionIn p e]"] by simp
    next
      case False
      then have "run_phases cfg ev ps False (emit (ExceptionIn p e) r1) = (ok', r')"
        using Cons.prems ph Inl by (simp add: Let_def)
      then show ?thesis using step [of False "emit (ExceptionIn p e) r1" "[ExceptionIn p e]"] by simp
    qed
  next
    case (Inr result)
    show ?thesis
    proof (cases "\<not> result \<and> fail_fast cfg")
      case True
      then have "r' = emit (FailFastStop p) r1"
        using Cons.prems ph Inr by simp
      then show ?thesis using stop [of "[FailFastStop p]"] by simp
    next
      case False
      then have "run_phases cfg ev ps (if result then ok else False) r1 = (ok', r')"
        using Cons.prems ph Inr by (auto split: if_splits)
      then show ?thesis using step [of "if result then ok else False" r1 "[]"] by simp
    qed
  qed
qed

lemma run_phases_exception:
  assumes "distinct ps" and "\<forall>q\<in>set ps. results r q = \<lparr>status = Pending, details = []\<rparr>"
    and "run_phases cfg ev ps ok r = (ok', s)"
    and "ExceptionIn p e \<in> set (trace s)" and "ExceptionIn p e \<notin> set (trace r)"
  shows "\<not> ok' \<and> results s p = \<lparr>status = Pending, details = []\<rparr> \<and> p \<in> set ps"
  using assms
proof (induction ps arbitrary: ok r)
  case Nil
  then show ?case by simp
next
  case (Cons q ps)
  obtain out r1 where ph: "phase_func q cfg ev r = (out, r1)"
    by (cases "phase_func q cfg ev r")
  from phase_func_frame [OF ph] obtain evs1 where
    t1: "trace r1 = trace r @ Banner q # evs1" and e1: "\<forall>e\<in>set evs1. loop_event [] e"
    and f1: "\<forall>q'. q' \<noteq> q \<longrightarrow> results r1 q' = results r q'"
    and i1: "\<forall>e. out = Inl e \<longrightarrow> results r1 = results r"
    by blast
  have notin1: "ExceptionIn p e \<notin> set (trace r1)"
    using Cons.prems(5) t1 e1 by auto
  have dist: "distinct ps" "q \<notin> set ps"
    using Cons.prems(1) by simp_all
  have pend1: "\<forall>q'\<in>set ps. results r1 q' = \<lparr>status = Pending, details = []\<rparr>"
    using Cons.prems(2) f1 dist(2) by auto
  show ?case
  proof (cases out)
    case (Inl e')
    let ?r2 = "emit (ExceptionIn q e') r1"
    have res2: "results ?r2 = results r"
      using i1 Inl by simp
    show ?thesis
    proof (cases "fail_fast cfg")
      case True
      then have s: "s = ?r2" "ok' = False"
        using Cons.prems(3) ph Inl by (simp_all add: Let_def)
      then have "p = q"
        using Cons.prems(4) notin1 by auto
      then show ?thesis using s res2 Cons.prems(2) by simp
    next
      case False
      then have run: "run_phases cfg ev ps False ?r2 = (ok', s)"
        using Cons.prems(3) ph Inl by (simp add: Let_def)
      have nok: "\<not> ok'"
        using run run_phases_False [of cfg ev ps ?r2] by simp
      show ?thesis
      proof (cases "ExceptionIn p e \<in> set (trace ?r2)")
        case True
        then have pq: "p = q" using notin1 by auto
        have "results s q = results ?r2 q"
          using run_phases_frame [OF run] dist(2) by blast
        then show ?thesis using nok pq res2 Cons.prems(2) by simp
      next
        case False
        have "\<forall>q'\<in>set ps. results ?r2 q' = \<lparr>status = Pending, details = []\<rparr>"
          using pend1 by simp
        from Cons.IH [OF dist(1) this run Cons.prems(4) False]
        show ?thesis by simp
      qed
    qed
  next
    case (Inr result)
    show ?thesis
    proof (cases "\<not> result \<and> fail_fast cfg")
      case True
      then have "s = emit (FailFastStop q) r1"
        using Cons.prems(3) ph Inr by simp
      then show ?thesis using Cons.prems(4) notin1 by simp
    next
      case False
      then have run: "run_phases cfg ev ps (if result then ok else False) r1 = (ok', s)"
        using Cons.prems(3) ph Inr by (auto split: if_splits)
      from Cons.IH [OF dist(1) pend1 run Cons.prems(4) notin1]
      show ?thesis by simp
    qed
  qed
qed

lemma run_all_phases_eq:
  "run_all_phases cfg ev r0 =
     (fst (run_phases cfg ev all_phases True r0),
      print_final_summary
        (if cleanup_enabled cfg
         then emit (Command destroy_command)
                (emit CleanupBanner (snd (run_phases cfg ev all_phases True r0)))
         else snd (run_phases cfg ev all_phases True r0)))"
  by (simp add: run_all_phases_def cleanup_def Let_def split_beta)

lemma run_all_phases_fields:
  "fst (run_all_phases cfg ev r0) = fst (run_phases cfg ev all_phases True r0)"
  "results (snd (run_all_phases cfg ev r0)) = results (snd (run_phases cfg ev all_phases True r0))"
  "trace (snd (run_all_phases cfg ev r0)) =
     trace (snd (run_phases cfg ev all_phases True r0)) @
     (if cleanup_enabled cfg then [CleanupBanner, Command destroy_command] else []) @
     [FinalSummary (filter (\<lambda>p. status (results (snd (run_phases cfg ev all_phases True r0)) p) = Failed)
                      all_phases)]"
  by (simp_all add: run_all_phases_eq print_final_summary_def)

lemma loop_trace_init:
  "\<forall>e\<in>set (trace (snd (run_phases cfg ev ps ok init_runner))). loop_event ps e"
proof -
  obtain ok' r' where run: "run_phases cfg ev ps ok init_runner = (ok', r')"
    by (cases "run_phases cfg ev ps ok init_runner")
  from run_phases_frame [OF run] show ?thesis
    using run by (auto simp add: init_runner_def)
qed


subsection \<open>Exceptions raised by a phase\<close>

lemma run_phases_raising_head:
  assumes "phase_func p cfg ev r = (Inl e, r')"
  shows "\<not> fst (run_phases cfg ev (p # rest) ok r) \<and>
         ExceptionIn p e \<in> set (trace (snd (run_phases cfg ev (p # rest) ok r)))"
proof (cases "fail_fast cfg")
  case True
  then show ?thesis using assms by (simp add: Let_def)
next
  case False
  let ?r2 = "emit (ExceptionIn p e) r'"
  obtain ok' s where run: "run_phases cfg ev rest False ?r2 = (ok', s)"
    by (cases "run_phases cfg ev rest False ?r2")
  have "\<not> ok'" using run run_phases_False [of cfg ev rest ?r2] by simp
  moreover have "ExceptionIn p e \<in> set (trace s)"
    using run_phases_frame [OF run] by auto
  ultimately show ?thesis using assms False run by (simp add: Let_def)
qed

text \<open>
  An exception raised by a phase is caught by the handler of the loop, which prints it and
  clears \<^verbatim>\<open>all_passed\<close>: the loop goes on to return \<^verbatim>\<open>False\<close>, the run still reaches
  the cleanup (when enabled) and the final summary, and the exit code is 1. The handler
  writes nothing to \<^verbatim>\<open>results\<close>: a phase that raised leaves \<^verbatim>\<open>results\<close> as they were
  on its entry, so in a run its status stays \<^verbatim>\<open>pending\<close> with no detail.
\<close>

lemma exception_contained:
  "(\<exists>evs fs. trace (snd (run_all_phases cfg ev init_runner)) = evs @ [FinalSummary fs]) \<and>
   (cleanup_enabled cfg \<longrightarrow>
      CleanupBanner \<in> set (trace (snd (run_all_phases cfg ev init_runner))) \<and>
      Command destroy_command \<in> set (trace (snd (run_all_phases cfg ev init_runner)))) \<and>
   (ExceptionIn p e \<in> set (trace (snd (run_all_phases cfg ev init_runner))) \<longrightarrow>
      \<not> fst (run_all_phases cfg ev init_runner) \<and> main_exit_code cfg ev = 1 \<and>
      results (snd (run_all_phases cfg ev init_runner)) p = \<lparr>status = Pending, details = []\<rparr>) \<and>
   (phase_func p cfg ev r = (Inl e, r') \<longrightarrow>
      results r' = results r \<and>
      \<not> fst (run_phases cfg ev (p # rest) ok r) \<and>
      ExceptionIn p e \<in> set (trace (snd (run_phases cfg ev (p # rest) ok r))))"
proof -
  let ?rp = "run_phases cfg ev all_phases True init_runner"
  have 1: "\<exists>evs fs. trace (snd (run_all_phases cfg ev init_runner)) = evs @ [FinalSummary fs]"
    by (simp add: run_all_phases_fields)
  have 2: "CleanupBanner \<in> set (trace (snd (run_all_phases cfg ev init_runner))) \<and>
      Command destroy_command \<in> set (trace (snd (run_all_phases cfg ev init_runner)))"
    if "cleanup_enabled cfg"
    using that by (simp add: run_all_phases_fields)
  have 3: "\<not> fst (run_all_phases cfg ev init_runner) \<and> main_exit_code cfg ev = 1 \<and>
      results (snd (run_all_phases cfg ev init_runner)) p = \<lparr>status = Pending, details = []\<rparr>"
    if h: "ExceptionIn p e \<in> set (trace (snd (run_all_phases cfg ev init_runner)))"
  proof -
    obtain ok' s where run: "?rp = (ok', s)" by (cases ?rp)
    have in_s: "ExceptionIn p e \<in> set (trace s)"
      using h run by (auto simp add: run_all_phases_fields split: if_splits)
    have "\<not> ok' \<and> results s p = \<lparr>status = Pending, details = []\<rparr> \<and> p \<in> set all_phases"
      using run in_s
      by (intro run_phases_exception [of all_phases init_runner cfg ev True ok' s p e])
        (simp_all add: all_phases_def init_runner_def)
    then show ?thesis
      using run by (simp add: run_all_phases_fields main_exit_code_def)
  qed
  have 4: "results r' = results r \<and> \<not> fst (run_phases cfg ev (p # rest) ok r) \<and>
      ExceptionIn p e \<in> set (trace (snd (run_phases cfg ev (p # rest) ok r)))"
    if h: "phase_func p cfg ev r = (Inl e, r')"
    using phase_func_frame [OF h] run_phases_raising_head [OF h] by simp
  show ?thesis using 1 2 3 4 by blast
qed

text \<open>
  Claim C3 says that a phase in which an exception is raised is recorded as \<^verbatim>\<open>failed\<close>
  with the error text as a detail. In a run in which \<^verbatim>\<open>os.listdir('tests')\<close> raises in
  phase 2, the exception is caught, the later phases, the cleanup and the final summary are
  reached and the run returns \<^verbatim>\<open>False\<close>; but the status of the phase is still
  \<^verbatim>\<open>pending\<close>, it has no detail, and the final summary lists no failed phase.
\<close>

theorem C3_exception_status_not_recorded:
  "status (results (snd (run_all_phases
      \<lparr>run_pre_deployment = True, run_terraform_tests = True, run_integration_tests = False,
       run_post_deployment = False, cleanup_enabled = True, fail_fast = False,
       terraform_dir = ''tests/integration'', aws_region = ''us-east-1''\<rparr>
      \<lparr>pre_validation_rc = 0, listdir_tests = Inl ''No such file or directory: tests'',
       terraform_test_rc = 0, init_rc = 0, plan_rc = 0, apply_rc = 0, output_rc = 0,
       output_parse = Inr (Some ''sg-1''), write_outputs = None, pytest_run = None,
       report_failed = Some 0, post_validation_rc = 0, destroy_rc = 0\<rparr>
      init_runner)) TerraformTest) = Pending \<and>
   details (results (snd (run_all_phases
      \<lparr>run_pre_deployment = True, run_terraform_tests = True, run_integration_tests = False,
       run_post_deployment = False, cleanup_enabled = True, fail_fast = False,
       terraform_dir = ''tests/integration'', aws_region = ''us-east-1''\<rparr>
      \<lparr>pre_validation_rc = 0, listdir_tests = Inl ''No such file or directory: tests'',
       terraform_test_rc = 0, init_rc = 0, plan_rc = 0, apply_rc = 0, output_rc = 0,
       output_parse = Inr (Some ''sg-1''), write_outputs = None, pytest_run = None,
       report_failed = Some 0, post_validation_rc = 0, destroy_rc = 0\<rparr>
      init_runner)) TerraformTest) = [] \<and>
   trace (snd (run_all_phases
      \<lparr>run_pre_deployment = True, run_terraform_tests = True, run_integration_tests = False,
       run_post_deployment = False, cleanup_enabled = True, fail_fast = False,
       terraform_dir = ''tests/integration'', aws_region = ''us-east-1''\<rparr>
      \<lparr>pre_validation_rc = 0, listdir_tests = Inl ''No such file or directory: tests'',
       terraform_test_rc = 0, init_rc = 0, plan_rc = 0, apply_rc = 0, output_rc = 0,
       output_parse = Inr (Some ''sg-1''), write_outputs = None, pytest_run = None,
       report_failed = Some 0, post_validation_rc = 0, destroy_rc = 0\<rparr>
      init_runner)) =
     [Banner PreDeployment,
      Command [''python3'', ''tests/validate_terraform.py'', ''--dir'', ''tests/integration''],
      Banner TerraformTest,
      ExceptionIn TerraformTest ''No such file or directory: tests'',
      Banner IntegrationTest, Banner PostDeployment,
      CleanupBanner, Command destroy_command, FinalSummary []] \<and>
   main_exit_code
      \<lparr>run_pre_deployment = True, run_terraform_tests = True, run_integration_tests = False,
       run_post_deployment = False, cleanup_enabled = True, fail_fast = False,
       terraform_dir = ''tests/integration'', aws_region = ''us-east-1''\<rparr>
      \<lparr>pre_validation_rc = 0, listdir_tests = Inl ''No such file or directory: tests'',
       terraform_test_rc = 0, init_rc = 0, plan_rc = 0, apply_rc = 0, output_rc = 0,
       output_parse = Inr (Some ''sg-1''), write_outputs = None, pytest_run = None,
       report_failed = Some 0, post_validation_rc = 0, destroy_rc = 0\<rparr> = 1"
  by (simp add: main_exit_code_def run_all_phases_def all_phases_def cleanup_def print_final_summary_def
        phase_1_pre_deployment_validation_def phase_2_terraform_native_tests_def
        phase_3_deploy_and_integration_test_def phase_4_post_deployment_validation_def
        init_runner_def emit_def set_status_def add_detail_def Let_def)


subsection \<open>Teardown\<close>

text \<open>
  Claim C4. In every run, and so in every run in which a phase fails or raises, the
  teardown command \<^verbatim>\<open>terraform destroy\<close> is started exactly once if cleanup is enabled
  and not at all if it is disabled; it comes after everything the phase loop did and before
  the final summary, and no phase starts it. The return code of the teardown changes
  neither the recorded phase results, nor the result of the run, nor the exit code.
\<close>

theorem C4_teardown_once:
  "count_list (trace (snd (run_all_phases cfg ev init_runner))) (Command destroy_command) =
     (if cleanup_enabled cfg then 1 else 0) \<and>
   (\<exists>fs. trace (snd (run_all_phases cfg ev init_runner)) =
           trace (snd (run_phases cfg ev all_phases True init_runner)) @
           (if cleanup_enabled cfg then [CleanupBanner, Command destroy_command] else []) @
           [FinalSummary fs]) \<and>
   Command destroy_command \<notin> set (trace (snd (run_phases cfg ev all_phases True init_runner))) \<and>
   fst (run_all_phases cfg (ev\<lparr>destroy_rc := x\<rparr>) init_runner) =
     fst (run_all_phases cfg ev init_runner) \<and>
   results (snd (run_all_phases cfg (ev\<lparr>destroy_rc := x\<rparr>) init_runner)) =
     results (snd (run_all_phases cfg ev init_runner)) \<and>
   main_exit_code cfg (ev\<lparr>destroy_rc := x\<rparr>) = main_exit_code cfg ev"
proof -
  let ?t = "trace (snd (run_phases cfg ev all_phases True init_runner))"
  have notin: "Command destroy_command \<notin> set ?t"
    using loop_trace_init [of cfg ev all_phases True] by auto
  then have "count_list ?t (Command destroy_command) = 0"
    by (simp add: count_list_0_iff)
  then have 1: "count_list (trace (snd (run_all_phases cfg ev init_runner))) (Command destroy_command) =
     (if cleanup_enabled cfg then 1 else 0)"
    by (simp add: run_all_phases_fields)
  have 2: "\<exists>fs. trace (snd (run_all_phases cfg ev init_runner)) =
           ?t @ (if cleanup_enabled cfg then [CleanupBanner, Command destroy_command] else []) @
           [FinalSummary fs]"
    by (simp add: run_all_phases_fields)
  have 3: "fst (run_all_phases cfg (ev\<lparr>destroy_rc := x\<rparr>) init_runner) =
             fst (run_all_phases cfg ev init_runner)"
    and 4: "results (snd (run_all_phases cfg (ev\<lparr>destroy_rc := x\<rparr>) init_runner)) =
             results (snd (run_all_phases cfg ev init_runner))"
    by (simp_all add: run_all_phases_fields run_phases_destroy_rc)
  have 5: "main_exit_code cfg (ev\<lparr>destroy_rc := x\<rparr>) = main_exit_code cfg ev"
    using 3 by (simp add: main_exit_code_def)
  show ?thesis using 1 2 notin 3 4 5 by blast
qed

theorem C4_teardown_once_witness:
  "count_list (trace (snd (run_all_phases
      \<lparr>run_pre_deployment = True, run_terraform_tests = True, run_integration_tests = False,
       run_post_deployment = False, cleanup_enabled = True, fail_fast = False,
       terraform_dir = ''tests/integration'', aws_region = ''us-east-1''\<rparr>
      \<lparr>pre_validation_rc = 1, listdir_tests = Inl ''No such file or directory: tests'',
       terraform_test_rc = 0, init_rc = 0, plan_rc = 0, apply_rc = 0, output_rc = 0,
       output_parse = Inr (Some ''sg-1''), write_outputs = None, pytest_run = None,
       report_failed = Some 0, post_validation_rc = 0, destroy_rc = 1\<rparr>
      init_runner))) (Command destroy_command) = 1"
  using C4_teardown_once [of
      "\<lparr>run_pre_deployment = True, run_terraform_tests = True, run_integration_tests = False,
       run_post_deployment = False, cleanup_enabled = True, fail_fast = False,
       terraform_dir = ''tests/integration'', aws_region = ''us-east-1''\<rparr>"
      "\<lparr>pre_validation_rc = 1, listdir_tests = Inl ''No such file or directory: tests'',
       terraform_test_rc = 0, init_rc = 0, plan_rc = 0, apply_rc = 0, output_rc = 0,
       output_parse = Inr (Some ''sg-1''), write_outputs = None, pytest_run = None,
       report_failed = Some 0, post_validation_rc = 0, destroy_rc = 1\<rparr>" 0]
  by simp

subsection \<open>Fail-fast\<close>

text \<open>
  Claim C5. With fail-fast enabled, let the phases before \<open>p\<close> all have passed and let
  \<open>p\<close> return \<^verbatim>\<open>False\<close> or raise. Then the run returns \<^verbatim>\<open>False\<close> and the process
  exits with code 1; the recorded results are those that \<open>p\<close> left; every later phase is
  not entered (its banner is not printed) and its result is still \<^verbatim>\<open>pending\<close> with no
  detail; and the teardown command is started if cleanup is enabled.
\<close>

theorem C5_fail_fast:
  assumes "fail_fast cfg" and "all_phases = pre @ p # post"
    and "run_phases cfg ev pre True init_runner = (True, r)"
    and "phase_func p cfg ev r = (out, r')" and "out \<noteq> Inr True"
  shows "\<not> fst (run_all_phases cfg ev init_runner) \<and> main_exit_code cfg ev = 1 \<and>
         results (snd (run_all_phases cfg ev init_runner)) = results r' \<and>
         (\<forall>q\<in>set post.
            results (snd (run_all_phases cfg ev init_runner)) q = \<lparr>status = Pending, details = []\<rparr> \<and>
            Banner q \<notin> set (trace (snd (run_all_phases cfg ev init_runner)))) \<and>
         (cleanup_enabled cfg \<longrightarrow>
            Command destroy_command \<in> set (trace (snd (run_all_phases cfg ev init_runner))))"
proof -
  let ?rp = "run_phases cfg ev all_phases True init_runner"
  have rp: "?rp = run_phases cfg ev (p # post) True r"
    using run_phases_append [OF assms(3), of "p # post"] assms(2) by simp
  obtain x where stop: "run_phases cfg ev (p # post) True r = (False, emit x r')"
    and x: "x = FailFastStop p \<or> (\<exists>e. x = ExceptionIn p e)"
  proof (cases out)
    case (Inl e)
    then have "run_phases cfg ev (p # post) True r = (False, emit (ExceptionIn p e) r')"
      using assms(1,4) by (simp add: Let_def)
    then show ?thesis using that by blast
  next
    case (Inr result)
    then have "\<not> result" using assms(5) by simp
    then have "run_phases cfg ev (p # post) True r = (False, emit (FailFastStop p) r')"
      using assms(1,4) Inr by simp
    then show ?thesis using that by blast
  qed
  have rp': "?rp = (False, emit x r')" using rp stop by simp
  have dist: "distinct (pre @ p # post)"
    using assms(2) [symmetric] by (simp add: all_phases_def)
  from run_phases_frame [OF assms(3)] obtain evs0 where
    f0: "\<forall>q. q \<notin> set pre \<longrightarrow> results r q = results init_runner q"
    and t0: "trace r = trace init_runner @ evs0" and e0: "\<forall>e\<in>set evs0. loop_event pre e"
    by blast
  from phase_func_frame [OF assms(4)] obtain evs1 where
    t1: "trace r' = trace r @ Banner p # evs1" and e1: "\<forall>e\<in>set evs1. loop_event [] e"
    and f1: "\<forall>q. q \<noteq> p \<longrightarrow> results r' q = results r q"
    by blast
  have post: "results r' q = \<lparr>status = Pending, details = []\<rparr> \<and> Banner q \<notin> set (trace (emit x r'))"
    if q: "q \<in> set post" for q
  proof -
    have qp: "q \<noteq> p" and qpre: "q \<notin> set pre"
      using dist q by auto
    have "results r' q = results init_runner q"
      using f0 f1 qp qpre by simp
    then have res: "results r' q = \<lparr>status = Pending, details = []\<rparr>"
      by (simp add: init_runner_def)
    have "Banner q \<notin> set evs0" using e0 qpre by auto
    moreover have "Banner q \<notin> set evs1" using e1 by auto
    moreover have "Banner q \<noteq> x" using x by auto
    ultimately have "Banner q \<notin> set (trace (emit x r'))"
      using t0 t1 qp by (simp add: init_runner_def)
    then show ?thesis using res by simp
  qed
  have 1: "\<not> fst (run_all_phases cfg ev init_runner)" "main_exit_code cfg ev = 1"
    "results (snd (run_all_phases cfg ev init_runner)) = results r'"
    using rp' by (simp_all add: run_all_phases_fields main_exit_code_def)
  have 2: "results (snd (run_all_phases cfg ev init_runner)) q = \<lparr>status = Pending, details = []\<rparr> \<and>
            Banner q \<notin> set (trace (snd (run_all_phases cfg ev init_runner)))"
    if q: "q \<in> set post" for q
    using post [OF q] rp' by (simp add: run_all_phases_fields)
  have 3: "Command destroy_command \<in> set (trace (snd (run_all_phases cfg ev init_runner)))"
    if "cleanup_enabled cfg"
    using that by (simp add: run_all_phases_fields)
  show ?thesis using 1 2 3 by blast
qed

theorem C5_fail_fast_witness:
  "main_exit_code
        \<lparr>run_pre_deployment = True, run_terraform_tests = True, run_integration_tests = True,
         run_post_deployment = True, cleanup_enabled = True, fail_fast = True,
         terraform_dir = ''tests/integration'', aws_region = ''us-east-1''\<rparr>
        \<lparr>pre_validation_rc = 1, listdir_tests = Inr [''sg.tftest.hcl''],
         terraform_test_rc = 0, init_rc = 0, plan_rc = 0, apply_rc = 0, output_rc = 0,
         output_parse = Inr (Some ''sg-1''), write_outputs = None, pytest_run = None,
         report_failed = Some 0, post_validation_rc = 0, destroy_rc = 0\<rparr> = 1 \<and>
   results (snd (run_all_phases
        \<lparr>run_pre_deployment = True, run_terraform_tests = True, run_integration_tests = True,
         run_post_deployment = True, cleanup_enabled = True, fail_fast = True,
         terraform_dir = ''tests/integration'', aws_region = ''us-east-1''\<rparr>
        \<lparr>pre_validation_rc = 1, listdir_tests = Inr [''sg.tftest.hcl''],
         terraform_test_rc = 0, init_rc = 0, plan_rc = 0, apply_rc = 0, output_rc = 0,
         output_parse = Inr (Some ''sg-1''), write_outputs = None, pytest_run = None,
         report_failed = Some 0, post_validation_rc = 0, destroy_rc = 0\<rparr>
        init_runner)) TerraformTest = \<lparr>status = Pending, details = []\<rparr> \<and>
   results (snd (run_all_phases
        \<lparr>run_pre_deployment = True, run_terraform_tests = True, run_integration_tests = True,
         run_post_deployment = True, cleanup_enabled = True, fail_fast = True,
         terraform_dir = ''tests/integration'', aws_region = ''us-east-1''\<rparr>
        \<lparr>pre_validation_rc = 1, listdir_tests = Inr [''sg.tftest.hcl''],
         terraform_test_rc = 0, init_rc = 0, plan_rc = 0, apply_rc = 0, output_rc = 0,
         output_parse = Inr (Some ''sg-1''), write_outputs = None, pytest_run = None,
         report_failed = Some 0, post_validation_rc = 0, destroy_rc = 0\<rparr>
        init_runner)) IntegrationTest = \<lparr>status = Pending, details = []\<rparr> \<and>
   results (snd (run_all_phases
        \<lparr>run_pre_deployment = True, run_terraform_tests = True, run_integration_tests = True,
         run_post_deployment = True, cleanup_enabled = True, fail_fast = True,
         terraform_dir = ''tests/integration'', aws_region = ''us-east-1''\<rparr>
        \<lparr>pre_validation_rc = 1, listdir_tests = Inr [''sg.tftest.hcl''],
         terraform_test_rc = 0, init_rc = 0, plan_rc = 0, apply_rc = 0, output_rc = 0,
         output_parse = Inr (Some ''sg-1''), write_outputs = None, pytest_run = None,
         report_failed = Some 0, post_validation_rc = 0, destroy_rc = 0\<rparr>
        init_runner)) PostDeployment = \<lparr>status = Pending, details = []\<rparr> \<and>
   Command destroy_command \<in> set (trace (snd (run_all_phases
        \<lparr>run_pre_deployment = True, run_terraform_tests = True, run_integration_tests = True,
         run_post_deployment = True, cleanup_enabled = True, fail_fast = True,
         terraform_dir = ''tests/integration'', aws_region = ''us-east-1''\<rparr>
        \<lparr>pre_validation_rc = 1, listdir_tests = Inr [''sg.tftest.hcl''],
         terraform_test_rc = 0, init_rc = 0, plan_rc = 0, apply_rc = 0, output_rc = 0,
         output_parse = Inr (Some ''sg-1''), write_outputs = None, pytest_run = None,
         report_failed = Some 0, post_validation_rc = 0, destroy_rc = 0\<rparr>
        init_runner)))"
proof -
  let ?cfg = "\<lparr>run_pre_deployment = True, run_terraform_tests = True, run_integration_tests = True,
       run_post_deployment = True, cleanup_enabled = True, fail_fast = True,
       terraform_dir = ''tests/integration'', aws_region = ''us-east-1''\<rparr>"
  let ?ev = "\<lparr>pre_validation_rc = 1, listdir_tests = Inr [''sg.tftest.hcl''],
       terraform_test_rc = 0, init_rc = 0, plan_rc = 0, apply_rc = 0, output_rc = 0,
       output_parse = Inr (Some ''sg-1''), write_outputs = None, pytest_run = None,
       report_failed = Some 0, post_validation_rc = 0, destroy_rc = 0\<rparr>"
  have h1: "fail_fast ?cfg" by simp
  have h2: "all_phases = [] @ PreDeployment # [TerraformTest, IntegrationTest, PostDeployment]"
    by (simp add: all_phases_def)
  have h3: "run_phases ?cfg ?ev [] True init_runner = (True, init_runner)" by simp
  have h4: "phase_func PreDeployment ?cfg ?ev init_runner =
              (Inr False, snd (phase_func PreDeployment ?cfg ?ev init_runner))"
    by (simp add: phase_1_pre_deployment_validation_def Let_def)
  have h5: "(Inr False :: string + bool) \<noteq> Inr True" by simp
  from C5_fail_fast [OF h1 h2 h3 h4 h5]
  have a: "main_exit_code ?cfg ?ev = 1"
    and b: "\<forall>q\<in>set [TerraformTest, IntegrationTest, PostDeployment].
              results (snd (run_all_phases ?cfg ?ev init_runner)) q = \<lparr>status = Pending, details = []\<rparr> \<and>
              Banner q \<notin> set (trace (snd (run_all_phases ?cfg ?ev init_runner)))"
    and c: "cleanup_enabled ?cfg \<longrightarrow>
              Command destroy_command \<in> set (trace (snd (run_all_phases ?cfg ?ev init_runner)))"
    by blast+
  have c': "Command destroy_command \<in> set (trace (snd (run_all_phases ?cfg ?ev init_runner)))"
    using c by simp
  show ?thesis
    using a b c' by auto
qed

end
